theory Spec2Isabelle
  imports Complex_Main
begin

section \<open>Connector classification and aggregation\<close>

text \<open>
  The four scripts share \<open>assign_charging_type\<close> and \<open>max_charging_type\<close> verbatim
  (\<open>Cloud_Functions_Option_01/main.py\<close>, \<open>Cloud_Functions_Option_02/main.py\<close>,
  \<open>data_cleaning_OCM_GPA.py\<close>, \<open>data_extracting_cleaning_OCM.py\<close>). The three labels
  \<open>"Slow"\<close>, \<open>"Fast"\<close>, \<open>"Rapid"\<close> are the only strings the classifier ever produces, so
  they are a datatype here. A power reading is a Python float; the classifier only compares
  it with the constants 7 and 22, so readings are modelled as reals (a NaN reading is not
  modelled). \<open>np.nan\<close>, the value \<open>max_charging_type\<close> returns when no label is present, is
  \<open>None\<close>.
\<close>

datatype charging_type = Slow | Fast | Rapid

text \<open>The body of the \<open>for p in power_list\<close> loop of \<open>assign_charging_type\<close>.\<close>

definition tier :: "real \<Rightarrow> charging_type" where
  "tier p = (if p < 7 then Slow else if 7 \<le> p \<and> p \<le> 22 then Fast else Rapid)"

fun assign_charging_type :: "real list \<Rightarrow> charging_type list" where
  "assign_charging_type [] = []"
| "assign_charging_type (p # ps) = tier p # assign_charging_type ps"

definition max_charging_type :: "charging_type list \<Rightarrow> charging_type option" where
  "max_charging_type types =
     (if Rapid \<in> set types then Some Rapid
      else if Fast \<in> set types then Some Fast
      else if Slow \<in> set types then Some Slow
      else None)"

text \<open>The order of the tiers, Rapid above Fast above Slow, as a rank.\<close>

fun tier_rank :: "charging_type \<Rightarrow> nat" where
  "tier_rank Slow = 0"
| "tier_rank Fast = 1"
| "tier_rank Rapid = 2"

subsection \<open>Python's \<open>min\<close> and \<open>max\<close> over a list\<close>

text \<open>
  \<open>min(xs)\<close> and \<open>max(xs)\<close> scan the list from the left and keep the first smallest
  (largest) element; on an empty list they raise \<open>ValueError\<close>. Every call in the
  sources is guarded (\<open>min(powers) if powers else None\<close>), so the guarded form is
  modelled: \<open>None\<close> is the \<open>None\<close> / \<open>np.nan\<close> of the else branch.
\<close>

fun min_if_nonempty :: "real list \<Rightarrow> real option" where
  "min_if_nonempty [] = None"
| "min_if_nonempty (x # xs) = Some (fold (\<lambda>y m. if y < m then y else m) xs x)"

fun max_if_nonempty :: "real list \<Rightarrow> real option" where
  "max_if_nonempty [] = None"
| "max_if_nonempty (x # xs) = Some (fold (\<lambda>y m. if y > m then y else m) xs x)"

subsection \<open>Catalog connections (\<open>extract_connections\<close>, Option 02)\<close>

text \<open>
  One entry of a POI's \<open>Connections\<close> list. \<open>c.get(k)\<close> is \<open>None\<close> both for a missing key
  and for a JSON null, so each field read that way is an option.
\<close>

record connection =
  PowerKW :: "real option"
  ConnectionTypeID :: "int option"
  CurrentTypeID :: "int option"

record connection_info =
  Number_of_Connectors :: nat
  Power_List :: "real list"
  Min_Power_kW :: "real option"
  Max_Power_kW :: "real option"
  Charging_Type_List :: "charging_type list"
  Max_Charging_Type :: "charging_type option"
  Rapid_Charge_Available :: string
  Fast_Charge_Available :: string
  Slow_Charge_Available :: string
  Connection_Types :: "int list"
  Connection_CurrentTypes :: "int list"

text \<open>\<open>[c.get(k) for c in conn_list if c.get(k) is not None]\<close>\<close>

fun not_none :: "'a option list \<Rightarrow> 'a list" where
  "not_none [] = []"
| "not_none (None # xs) = not_none xs"
| "not_none (Some x # xs) = x # not_none xs"

definition yes_no :: "bool \<Rightarrow> string" where
  "yes_no b = (if b then ''Yes'' else ''No'')"

text \<open>
  The argument is \<open>None\<close> when the POI's \<open>Connections\<close> value is not a list; the result
  \<open>None\<close> is the empty dict \<open>{}\<close> returned then (every column of that row is NaN).
\<close>

definition extract_connections :: "connection list option \<Rightarrow> connection_info option" where
  "extract_connections conn_list =
     (case conn_list of
        None \<Rightarrow> None
      | Some cs \<Rightarrow>
          (let powers = not_none (map PowerKW cs);
               conn_types = not_none (map ConnectionTypeID cs);
               current_types = not_none (map CurrentTypeID cs);
               charging_type_list = (if powers \<noteq> [] then assign_charging_type powers else [])
           in Some \<lparr>Number_of_Connectors = length cs,
                    Power_List = powers,
                    Min_Power_kW = (if powers \<noteq> [] then min_if_nonempty powers else None),
                    Max_Power_kW = (if powers \<noteq> [] then max_if_nonempty powers else None),
                    Charging_Type_List = charging_type_list,
                    Max_Charging_Type = max_charging_type charging_type_list,
                    Rapid_Charge_Available = yes_no (Rapid \<in> set charging_type_list),
                    Fast_Charge_Available = yes_no (Fast \<in> set charging_type_list),
                    Slow_Charge_Available = yes_no (Slow \<in> set charging_type_list),
                    Connection_Types = conn_types,
                    Connection_CurrentTypes = current_types\<rparr>))"

section \<open>Catalog cleaning (\<open>ocm_extractor\<close>, Option 02, and the offline catalog script)\<close>

text \<open>
  A POI of the catalog as the cleaning steps read it: its \<open>ID\<close>, the coordinates inside
  \<open>AddressInfo\<close>, and its \<open>Connections\<close> (\<open>None\<close> when the value is not a list). The
  descriptive text columns (operator, status, title, address, usage) are carried along in
  \<open>Other\<close>: they are flattened, renamed and filled by steps that never read or change the
  columns below.
\<close>

record address_info =
  Latitude :: "real option"
  Longitude :: "real option"

record 'x poi =
  ID :: int
  AddressInfo :: address_info
  Connections :: "connection list option"
  Other :: 'x

text \<open>
  A cell of the exported frame after \<open>df_final.fillna("Unknown")\<close>: a value, or the string
  \<open>"Unknown"\<close> that replaced a missing one.
\<close>

datatype 'a filled = Value 'a | Unknown

definition fillna :: "'a option \<Rightarrow> 'a filled" where
  "fillna c = (case c of None \<Rightarrow> Unknown | Some v \<Rightarrow> Value v)"

text \<open>
  The exported columns (\<open>selected_cols\<close>). The suffix \<open>_col\<close> tells the columns that come
  from \<open>extract_connections\<close> apart from the keys of the dict it returns.
\<close>

record 'x export_row =
  Place_ID :: int
  Descriptive :: 'x
  Latitude_col :: "real filled"
  Longitude_col :: "real filled"
  Number_of_Connectors_col :: "nat filled"
  Min_Power_kW_col :: "real filled"
  Max_Power_kW_col :: "real filled"
  Max_Charging_Type_col :: "charging_type filled"
  Rapid_Charge_Available_col :: "string filled"
  Fast_Charge_Available_col :: "string filled"
  Slow_Charge_Available_col :: "string filled"

text \<open>
  \<open>df_final.dropna(subset=["Number_of_Connectors", "Min_Power_kW", "Max_Power_kW",
  "Latitude", "Longitude"], how='any')\<close>: a row stays when none of the five cells is
  missing. The three connection cells of a row are missing when \<open>extract_connections\<close>
  returned \<open>{}\<close> for it, and the two power cells also when it returned \<open>None\<close> for them.
\<close>

definition dropna_keeps :: "'x poi \<Rightarrow> bool" where
  "dropna_keeps p =
     (case extract_connections (Connections p) of
        None \<Rightarrow> False
      | Some info \<Rightarrow>
          Min_Power_kW info \<noteq> None \<and> Max_Power_kW info \<noteq> None \<and>
          Latitude (AddressInfo p) \<noteq> None \<and> Longitude (AddressInfo p) \<noteq> None)"

definition export :: "'x poi \<Rightarrow> 'x export_row" where
  "export p =
     (let info = extract_connections (Connections p)
      in \<lparr>Place_ID = ID p,
          Descriptive = Other p,
          Latitude_col = fillna (Latitude (AddressInfo p)),
          Longitude_col = fillna (Longitude (AddressInfo p)),
          Number_of_Connectors_col = fillna (map_option Number_of_Connectors info),
          Min_Power_kW_col = fillna (Option.bind info Min_Power_kW),
          Max_Power_kW_col = fillna (Option.bind info Max_Power_kW),
          Max_Charging_Type_col = fillna (Option.bind info Max_Charging_Type),
          Rapid_Charge_Available_col = fillna (map_option Rapid_Charge_Available info),
          Fast_Charge_Available_col = fillna (map_option Fast_Charge_Available info),
          Slow_Charge_Available_col = fillna (map_option Slow_Charge_Available info)\<rparr>)"

datatype clean_error = No_data_returned | KeyError

text \<open>
  The frame the offline script writes (\<open>df_export\<close>). With no POI at all the script exits
  and the Cloud Function returns its 500 answer before any cleaning. When no POI has a list
  of connections, \<open>connection_info\<close> has no column and \<open>dropna\<close> raises \<open>KeyError\<close> for the
  missing labels. The two coordinate columns are taken to exist: the catalog sends both
  keys in every \<open>AddressInfo\<close>, with \<open>null\<close> for an unknown coordinate.
\<close>

definition df_export :: "'x poi list \<Rightarrow> clean_error + 'x export_row list" where
  "df_export all_poi_data =
     (if all_poi_data = [] then Inl No_data_returned
      else if list_all (\<lambda>p. extract_connections (Connections p) = None) all_poi_data
        then Inl KeyError
      else Inr (map export (filter dropna_keeps all_poi_data)))"

section \<open>Duplicates (\<open>DataFrame.drop_duplicates\<close>)\<close>

text \<open>
  \<open>drop_duplicates\<close> keeps the rows in their order and, of the rows that agree on the
  compared columns, the first one (\<open>keep='first'\<close>, the default) or the last one
  (\<open>keep='last'\<close>). \<open>key\<close> reads the compared columns of a row: \<open>place_id\<close> for
  \<open>subset=["place_id"]\<close> (Option 01), the whole row when no subset is given (Option 02
  and \<open>data_cleaning_OCM_GPA.py\<close>).
\<close>

fun keep_first :: "('a \<Rightarrow> 'k) \<Rightarrow> 'k list \<Rightarrow> 'a list \<Rightarrow> 'a list" where
  "keep_first key seen [] = []"
| "keep_first key seen (r # rs) =
     (if key r \<in> set seen then keep_first key seen rs
      else r # keep_first key (key r # seen) rs)"

fun keep_last :: "('a \<Rightarrow> 'k) \<Rightarrow> 'a list \<Rightarrow> 'a list" where
  "keep_last key [] = []"
| "keep_last key (r # rs) =
     (if key r \<in> set (map key rs) then keep_last key rs else r # keep_last key rs)"

text \<open>\<open>df.drop_duplicates(subset=["place_id"], inplace=True)\<close> in Option 01.\<close>

definition drop_duplicates_subset :: "('a \<Rightarrow> 'k) \<Rightarrow> 'a list \<Rightarrow> 'a list" where
  "drop_duplicates_subset key df = keep_first key [] df"

text \<open>\<open>df.drop_duplicates(inplace=True)\<close> in \<open>data_cleaning_OCM_GPA.py\<close>.\<close>

definition drop_duplicates :: "'a list \<Rightarrow> 'a list" where
  "drop_duplicates df = keep_first (\<lambda>r. r) [] df"

text \<open>\<open>df_final.drop_duplicates(keep='last')\<close> in Option 02.\<close>

definition drop_duplicates_keep_last :: "'a list \<Rightarrow> 'a list" where
  "drop_duplicates_keep_last df = keep_last (\<lambda>r. r) df"

text \<open>The frame Option 02 uploads and hands to \<open>load_to_bigquery_incremental\<close>.\<close>

definition df_final :: "'x poi list \<Rightarrow> clean_error + 'x export_row list" where
  "df_final all_poi_data =
     (case df_export all_poi_data of
        Inl e \<Rightarrow> Inl e
      | Inr rows \<Rightarrow> Inr (drop_duplicates_keep_last rows))"

section \<open>Incremental load (\<open>load_to_bigquery_incremental\<close>)\<close>

text \<open>
  The warehouse as the loader sees it: the destination table (\<open>None\<close> when
  \<open>client.get_table\<close> raises \<open>NotFound\<close>) and the load jobs run so far. A job with
  \<open>WRITE_APPEND\<close> appends its rows, creating the table when it is absent; a job with
  \<open>WRITE_EMPTY\<close> writes only to an absent or empty table and fails otherwise.
\<close>

datatype write_disposition = WRITE_APPEND | WRITE_EMPTY

datatype sink_error = Table_not_empty

record 'r bigquery =
  table :: "'r list option"
  load_jobs :: "(write_disposition \<times> 'r list) list"

definition load_table_from_dataframe ::
  "'r list \<Rightarrow> write_disposition \<Rightarrow> 'r bigquery \<Rightarrow> sink_error + 'r bigquery" where
  "load_table_from_dataframe df disposition bq =
     (case table bq of
        None \<Rightarrow> Inr (bq\<lparr>table := Some df, load_jobs := load_jobs bq @ [(disposition, df)]\<rparr>)
      | Some rows \<Rightarrow>
          (if disposition = WRITE_EMPTY \<and> rows \<noteq> [] then Inl Table_not_empty
           else Inr (bq\<lparr>table := Some (rows @ df),
                        load_jobs := load_jobs bq @ [(disposition, df)]\<rparr>)))"

text \<open>
  Option 01. \<open>Place_Id\<close> reads the key column of a row. The result is the returned
  message and the warehouse afterwards.
\<close>

definition load_to_bigquery_incremental ::
  "('r \<Rightarrow> 'k) \<Rightarrow> 'r list \<Rightarrow> 'r bigquery \<Rightarrow> sink_error + (string \<times> 'r bigquery)" where
  "load_to_bigquery_incremental Place_Id df bq =
     (case table bq of
        Some rows \<Rightarrow>
          (let existing_ids = set (map Place_Id rows);
               df_new = filter (\<lambda>r. Place_Id r \<notin> existing_ids) df
           in if df_new = [] then Inr (''No new data'', bq)
              else (case load_table_from_dataframe df_new WRITE_APPEND bq of
                      Inl e \<Rightarrow> Inl e
                    | Inr bq' \<Rightarrow> Inr (''OK'', bq')))
      | None \<Rightarrow>
          (case load_table_from_dataframe df WRITE_EMPTY bq of
             Inl e \<Rightarrow> Inl e
           | Inr bq' \<Rightarrow> Inr (''OK'', bq')))"

text \<open>
  Option 02: the same steps; \<open>Place_ID_of\<close> reads the key column, and \<open>table_id\<close> is
  returned on both paths.
\<close>

definition table_id :: string where
  "table_id = ''fiery-atlas-472112-s9.ev_data_ocm_only.ev_chargers_ocm_only_cleaned''"

definition load_to_bigquery_incremental_02 ::
  "('r \<Rightarrow> 'k) \<Rightarrow> 'r list \<Rightarrow> 'r bigquery \<Rightarrow> sink_error + (string \<times> 'r bigquery)" where
  "load_to_bigquery_incremental_02 Place_ID_of df bq =
     (case table bq of
        Some rows \<Rightarrow>
          (let existing_ids = map Place_ID_of rows;
               df_new = filter (\<lambda>r. Place_ID_of r \<notin> set existing_ids) df
           in if df_new = [] then Inr (table_id, bq)
              else (case load_table_from_dataframe df_new WRITE_APPEND bq of
                      Inl e \<Rightarrow> Inl e
                    | Inr bq' \<Rightarrow> Inr (table_id, bq')))
      | None \<Rightarrow>
          (case load_table_from_dataframe df WRITE_EMPTY bq of
             Inl e \<Rightarrow> Inl e
           | Inr bq' \<Rightarrow> Inr (table_id, bq')))"

section \<open>Rate-limited fetch (\<open>safe_get\<close>, Option 02)\<close>

subsection \<open>Python's \<open>int\<close> on a string\<close>

text \<open>
  \<open>int(s)\<close> strips surrounding white space, reads an optional sign and then decimal digits,
  where single underscores may stand between digits; on any other text it raises
  \<open>ValueError\<close> (\<open>None\<close> here).
\<close>

definition is_space :: "char \<Rightarrow> bool" where
  "is_space c \<longleftrightarrow> c \<in> set [CHR '' '', CHR 0x09, CHR 0x0A, CHR 0x0B, CHR 0x0C, CHR 0x0D]"

definition strip :: "string \<Rightarrow> string" where
  "strip s = rev (dropWhile is_space (rev (dropWhile is_space s)))"

definition is_digit :: "char \<Rightarrow> bool" where
  "is_digit c \<longleftrightarrow> c \<in> set ''0123456789''"

definition digit_value :: "char \<Rightarrow> nat" where
  "digit_value c = of_char c - 48"

text \<open>The digits read so far as a number, and whether the last character was a digit.\<close>

fun int_digits :: "nat \<Rightarrow> bool \<Rightarrow> string \<Rightarrow> nat option" where
  "int_digits acc after_digit [] = (if after_digit then Some acc else None)"
| "int_digits acc after_digit (c # cs) =
     (if is_digit c then int_digits (acc * 10 + digit_value c) True cs
      else if c = CHR ''_'' \<and> after_digit then int_digits acc False cs
      else None)"

definition py_int :: "string \<Rightarrow> int option" where
  "py_int s =
     (case strip s of
        [] \<Rightarrow> None
      | c # cs \<Rightarrow>
          if c = CHR ''-'' then map_option (\<lambda>n. - int n) (int_digits 0 False cs)
          else if c = CHR ''+'' then map_option int (int_digits 0 False cs)
          else map_option int (int_digits 0 False (c # cs)))"

subsection \<open>The retry loop\<close>

text \<open>
  What one \<open>requests.get\<close> does: it returns a response (its status code, its
  \<open>Retry-After\<close> header if any, its body) or raises a \<open>RequestException\<close> (no connection,
  time-out). The server is a function from the number of the attempt, counted from 0, to
  what that attempt does.
\<close>

datatype 'b response = Response (status_code: nat) (retry_after_header: "string option") (body: 'b)

datatype 'b attempt = Got "'b response" | Request_exception

text \<open>
  How a call of \<open>safe_get\<close> ends: it returns the response, it returns \<open>None\<close> (the request is
  skipped), or an exception leaves it. Only \<open>RequestException\<close> is caught, so the
  \<open>ValueError\<close> of \<open>int(retry_after)\<close>, and of \<open>time.sleep\<close> on a negative number, leaves
  the function.
\<close>

datatype 'b outcome = Returned "'b response" | Skipped | Raised_ValueError

text \<open>\<open>response.raise_for_status()\<close> raises \<open>HTTPError\<close>, a \<open>RequestException\<close>.\<close>

definition raises_for_status :: "'b response \<Rightarrow> bool" where
  "raises_for_status r \<longleftrightarrow> 400 \<le> status_code r \<and> status_code r < 600"

text \<open>
  The state of the loop is \<open>retry\<close> and the list of the waits slept so far, in seconds;
  every pass sends one request, so \<open>retry\<close> is also the number of requests sent before
  the pass. The result is the outcome, the number of requests sent, and the waits.
\<close>

function safe_get_loop ::
  "(nat \<Rightarrow> 'b attempt) \<Rightarrow> nat \<Rightarrow> nat \<Rightarrow> int list \<Rightarrow> 'b outcome \<times> nat \<times> int list" where
  "safe_get_loop server max_retries retry slept =
     (if retry < max_retries then
        (case server retry of
           Got response \<Rightarrow>
             if status_code response = 429 then
               (case (case retry_after_header response of
                        None \<Rightarrow> Some (2 ^ retry)
                      | Some retry_after \<Rightarrow>
                          if retry_after \<noteq> [] then py_int retry_after else Some (2 ^ retry)) of
                  None \<Rightarrow> (Raised_ValueError, retry + 1, slept)
                | Some wait_time \<Rightarrow>
                    if wait_time < 0 then (Raised_ValueError, retry + 1, slept)
                    else safe_get_loop server max_retries (retry + 1) (slept @ [wait_time]))
             else if raises_for_status response then
               safe_get_loop server max_retries (retry + 1) (slept @ [2 ^ retry])
             else (Returned response, retry + 1, slept)
         | Request_exception \<Rightarrow>
             safe_get_loop server max_retries (retry + 1) (slept @ [2 ^ retry]))
      else (Skipped, retry, slept))"
  by pat_completeness auto
termination
  by (relation "measure (\<lambda>(server, max_retries, retry, slept). max_retries - retry)") auto

declare safe_get_loop.simps [simp del]

definition safe_get :: "(nat \<Rightarrow> 'b attempt) \<Rightarrow> nat \<Rightarrow> 'b outcome \<times> nat \<times> int list" where
  "safe_get server max_retries = safe_get_loop server max_retries 0 []"

text \<open>The default \<open>max_retries=5\<close>, which the only caller uses.\<close>

definition default_max_retries :: nat where
  "default_max_retries = 5"

text \<open>A \<open>Retry-After\<close> header that \<open>int\<close> reads as a number that is not negative.\<close>

definition header_readable :: "string option \<Rightarrow> bool" where
  "header_readable h =
     (case h of
        None \<Rightarrow> True
      | Some s \<Rightarrow> s = [] \<or> (case py_int s of None \<Rightarrow> False | Some w \<Rightarrow> 0 \<le> w))"

section \<open>Verified-place sweep (\<open>fetch_central_london_verified\<close> and \<open>run_extraction\<close>)\<close>

subsection \<open>Strings\<close>

text \<open>\<open>sub in s\<close> on strings, and \<open>s.lower()\<close> on ASCII text.\<close>

fun contains :: "string \<Rightarrow> string \<Rightarrow> bool" where
  "contains [] sub = (sub = [])"
| "contains (c # cs) sub = (take (length sub) (c # cs) = sub \<or> contains cs sub)"

definition lower_char :: "char \<Rightarrow> char" where
  "lower_char c =
     (case map_of (zip ''ABCDEFGHIJKLMNOPQRSTUVWXYZ'' ''abcdefghijklmnopqrstuvwxyz'') c of
        None \<Rightarrow> c
      | Some l \<Rightarrow> l)"

definition lower :: "string \<Rightarrow> string" where
  "lower s = map lower_char s"

subsection \<open>\<open>is_charger_place\<close>\<close>

text \<open>
  The \<open>result\<close> object of a Place Details answer, as \<open>is_charger_place\<close> reads it; a
  missing \<open>result\<close> is the record of three \<open>None\<close>.
\<close>

record place_details =
  types :: "string list option"
  name :: "string option"
  formatted_address :: "string option"

text \<open>\<open>x or d\<close> for a value that is missing or empty.\<close>

definition or_default :: "'a list option \<Rightarrow> 'a list" where
  "or_default x = (case x of None \<Rightarrow> [] | Some v \<Rightarrow> v)"

text \<open>The script \<open>data_extracting_OCM_GPA.py\<close>.\<close>

definition CHARGER_KEYWORDS :: "string list" where
  "CHARGER_KEYWORDS = map lower
     [''charge'', ''charging'', ''ev'', ''ev-charger'', ''ev charger'', ''pod point'',
      ''pod-point'', ''bp pulse'', ''bp-pulse'', ''tesla'', ''tesla supercharger'',
      ''instavolt'', ''chargepoint'', ''rapid charger'', ''rapid charge'', ''ac charger'',
      ''dc charger'', ''shell recharge'', ''shell-recharge'', ''ionity'', ''evgo'', ''engie'',
      ''mer'', ''octopus'', ''octopus energy'', ''podpoint'']"

definition is_charger_place :: "place_details \<Rightarrow> bool" where
  "is_charger_place result =
     (let types = map lower (or_default (types result)) in
      if ''electric_vehicle_charging_station'' \<in> set types \<or> ''charging_station'' \<in> set types
      then True
      else
        (let name_l = lower (or_default (name result)) in
         if list_ex (\<lambda>kw. contains name_l kw) CHARGER_KEYWORDS then True
         else
           (let addr = or_default (formatted_address result) in
            if contains (lower addr) ''charging'' \<or> contains (lower addr) ''ev'' then True
            else False)))"

text \<open>Option 01.\<close>

definition CHARGER_KEYWORDS_01 :: "string list" where
  "CHARGER_KEYWORDS_01 = map lower
     [''charge'', ''charging'', ''ev'', ''ev charger'', ''ev-charger'',
      ''pod point'', ''bp pulse'', ''tesla'', ''supercharger'',
      ''instavolt'', ''chargepoint'', ''rapid charger'',
      ''shell recharge'', ''ionity'', ''mer'', ''octopus'']"

definition is_charger_place_01 :: "place_details \<Rightarrow> bool" where
  "is_charger_place_01 result =
     (if ''electric_vehicle_charging_station'' \<in> set (or_default (types result)) then True
      else
        (let name = lower (or_default (name result)) in
         if list_ex (\<lambda>kw. contains name kw) CHARGER_KEYWORDS_01 then True
         else
           (let addr = lower (or_default (formatted_address result)) in
            if contains addr ''charging'' \<or> contains addr ''ev'' then True
            else False)))"

subsection \<open>The sweep\<close>

text \<open>
  The state of a sweep: the records appended so far, each kept as the \<open>place_id\<close> and the
  details its other columns are read from, the set \<open>seen\<close>, and the trace of the calls of
  \<open>fetch_place_details\<close> made so far. The trace is not a variable of the code: it lists
  every call in order, with the identifier asked for and whether that call ended in
  \<open>seen.add(pid)\<close>.

  The two services are parameters. \<open>fetch_place_details n pid\<close> is the answer to the
  \<open>n\<close>-th details call of the run (counted from 0) when it asks for \<open>pid\<close>, \<open>None\<close> when
  the call raises. The nearby searches are given as the list of their outcomes, one for
  each grid point in the order of the two loops: the \<open>place_id\<close> of every result
  (\<open>None\<close> when a result has none), or \<open>None\<close> when \<open>fetch_nearby\<close> raises.
\<close>

record sweep =
  records :: "(string \<times> place_details) list"
  seen :: "string set"
  fetched :: "(string \<times> bool) list"

definition start :: sweep where
  "start = \<lparr>records = [], seen = {}, fetched = []\<rparr>"

text \<open>
  The body of \<open>for r in results\<close> in the script: a failed details call is caught and the
  loop continues.
\<close>

definition visit ::
  "(place_details \<Rightarrow> bool) \<Rightarrow> (nat \<Rightarrow> string \<Rightarrow> place_details option) \<Rightarrow>
   string option \<Rightarrow> sweep \<Rightarrow> sweep" where
  "visit accepts fetch_place_details r st =
     (case r of
        None \<Rightarrow> st
      | Some pid \<Rightarrow>
          if pid = [] \<or> pid \<in> seen st then st
          else
            (case fetch_place_details (length (fetched st)) pid of
               None \<Rightarrow> st\<lparr>fetched := fetched st @ [(pid, False)]\<rparr>
             | Some details \<Rightarrow>
                 if \<not> accepts details then st\<lparr>fetched := fetched st @ [(pid, False)]\<rparr>
                 else st\<lparr>records := records st @ [(pid, details)],
                         seen := insert pid (seen st),
                         fetched := fetched st @ [(pid, True)]\<rparr>))"

definition fetch_central_london_verified ::
  "(nat \<Rightarrow> string \<Rightarrow> place_details option) \<Rightarrow> string option list option list \<Rightarrow> sweep" where
  "fetch_central_london_verified fetch_place_details nearby =
     fold (\<lambda>results st.
             case results of
               None \<Rightarrow> st
             | Some rs \<Rightarrow> fold (visit is_charger_place fetch_place_details) rs st)
          nearby start"

text \<open>
  Option 01 has no \<open>try\<close> around either call: an exception of \<open>fetch_nearby\<close> or of
  \<open>fetch_place_details\<close> leaves \<open>run_extraction\<close> (\<open>None\<close> here).
\<close>

definition visit_01 ::
  "(nat \<Rightarrow> string \<Rightarrow> place_details option) \<Rightarrow> string option \<Rightarrow> sweep \<Rightarrow> sweep option" where
  "visit_01 fetch_place_details r st =
     (case r of
        None \<Rightarrow> Some st
      | Some pid \<Rightarrow>
          if pid = [] \<or> pid \<in> seen st then Some st
          else
            (case fetch_place_details (length (fetched st)) pid of
               None \<Rightarrow> None
             | Some details \<Rightarrow>
                 if \<not> is_charger_place_01 details
                 then Some (st\<lparr>fetched := fetched st @ [(pid, False)]\<rparr>)
                 else Some (st\<lparr>records := records st @ [(pid, details)],
                               seen := insert pid (seen st),
                               fetched := fetched st @ [(pid, True)]\<rparr>)))"

fun visit_all_01 ::
  "(nat \<Rightarrow> string \<Rightarrow> place_details option) \<Rightarrow> string option list \<Rightarrow> sweep \<Rightarrow> sweep option" where
  "visit_all_01 fetch_place_details [] st = Some st"
| "visit_all_01 fetch_place_details (r # rs) st =
     (case visit_01 fetch_place_details r st of
        None \<Rightarrow> None
      | Some st' \<Rightarrow> visit_all_01 fetch_place_details rs st')"

fun run_extraction_from ::
  "(nat \<Rightarrow> string \<Rightarrow> place_details option) \<Rightarrow> string option list option list \<Rightarrow>
   sweep \<Rightarrow> sweep option" where
  "run_extraction_from fetch_place_details [] st = Some st"
| "run_extraction_from fetch_place_details (results # rest) st =
     (case results of
        None \<Rightarrow> None
      | Some rs \<Rightarrow>
          (case visit_all_01 fetch_place_details rs st of
             None \<Rightarrow> None
           | Some st' \<Rightarrow> run_extraction_from fetch_place_details rest st'))"

definition run_extraction ::
  "(nat \<Rightarrow> string \<Rightarrow> place_details option) \<Rightarrow> string option list option list \<Rightarrow>
   sweep option" where
  "run_extraction fetch_place_details nearby =
     run_extraction_from fetch_place_details nearby start"

text \<open>
  No call for an identifier follows a call for it that ended in \<open>seen.add\<close>: read on the
  trace from its first call on.
\<close>

fun no_refetch :: "(string \<times> bool) list \<Rightarrow> bool" where
  "no_refetch [] = True"
| "no_refetch ((pid, added) # later) =
     ((added \<longrightarrow> pid \<notin> fst ` set later) \<and> no_refetch later)"

text \<open>The identifiers whose call ended in \<open>seen.add\<close>, in the order of the calls.\<close>

definition accepted :: "(string \<times> bool) list \<Rightarrow> string list" where
  "accepted trace = map fst (filter snd trace)"

text \<open>What every pass of the loops keeps true of the state.\<close>

definition sweep_inv :: "sweep \<Rightarrow> bool" where
  "sweep_inv st \<longleftrightarrow>
     no_refetch (fetched st) \<and>
     seen st = set (accepted (fetched st)) \<and>
     map fst (records st) = accepted (fetched st) \<and>
     distinct (accepted (fetched st))"

section \<open>Secondary-catalog lookup and power parsing (Option 01)\<close>

subsection \<open>Rendering and reading a power\<close>

text \<open>
  \<open>f"{float(power_kw):.1f} kW"\<close> writes the reading with one decimal, rounded to the
  nearest tenth and to the even tenth on a tie, with a minus sign for a negative reading.
  The reading is a real here, so the rounding is that of the real number, not of the
  binary float next to it.
\<close>

definition round_half_even :: "real \<Rightarrow> nat" where
  "round_half_even x =
     (let f = nat \<lfloor>x\<rfloor>; d = x - real f
      in if d < 1 / 2 then f else if 1 / 2 < d then f + 1 else if even f then f else f + 1)"

definition tenths :: "real \<Rightarrow> nat" where
  "tenths p = round_half_even (\<bar>p\<bar> * 10)"

definition digit_char :: "nat \<Rightarrow> char" where
  "digit_char d = ''0123456789'' ! d"

function digits :: "nat \<Rightarrow> string" where
  "digits n = (if n < 10 then [digit_char n] else digits (n div 10) @ [digit_char (n mod 10)])"
  by pat_completeness auto
termination
  by (relation "measure (\<lambda>n. n)") auto

declare digits.simps [simp del]

definition format_1f :: "real \<Rightarrow> string" where
  "format_1f p =
     (if p < 0 then ''-'' else []) @ digits (tenths p div 10) @ ''.'' @ digits (tenths p mod 10)"

text \<open>The number \<open>format_1f p\<close> stands for.\<close>

definition round_1f :: "real \<Rightarrow> real" where
  "round_1f p = (if p < 0 then - (real (tenths p) / 10) else real (tenths p) / 10)"

text \<open>
  \<open>float(s)\<close> on the decimal texts the pipeline writes: optional white space around, an
  optional sign, digits with at most one point and at least one digit. On any other text
  the result is \<open>None\<close> (\<open>ValueError\<close>); the exponent, \<open>inf\<close>, \<open>nan\<close> and underscore forms
  that \<open>float\<close> also reads are not modelled, since no step of the pipeline writes them.
\<close>

fun nat_of_digits :: "nat \<Rightarrow> string \<Rightarrow> nat option" where
  "nat_of_digits acc [] = Some acc"
| "nat_of_digits acc (c # cs) =
     (if is_digit c then nat_of_digits (acc * 10 + digit_value c) cs else None)"

definition unsigned_float :: "string \<Rightarrow> real option" where
  "unsigned_float t =
     (let whole = takeWhile (\<lambda>c. c \<noteq> CHR ''.'') t;
          rest = dropWhile (\<lambda>c. c \<noteq> CHR ''.'') t;
          fraction = drop 1 rest
      in if whole = [] \<and> fraction = [] then None
         else
           (case (nat_of_digits 0 whole, nat_of_digits 0 fraction) of
              (Some a, Some b) \<Rightarrow> Some (real a + real b / 10 ^ length fraction)
            | _ \<Rightarrow> None))"

definition py_float :: "string \<Rightarrow> real option" where
  "py_float s =
     (case strip s of
        [] \<Rightarrow> None
      | c # cs \<Rightarrow>
          if c = CHR ''-'' then map_option uminus (unsigned_float cs)
          else if c = CHR ''+'' then unsigned_float cs
          else unsigned_float (c # cs))"

subsection \<open>\<open>"; ".join\<close>, \<open>split("; ")\<close> and \<open>replace(" kW", "")\<close>\<close>

fun join :: "string list \<Rightarrow> string" where
  "join [] = []"
| "join [x] = x"
| "join (x # y # ys) = x @ ''; '' @ join (y # ys)"

text \<open>The first argument is the piece read so far.\<close>

fun split_from :: "string \<Rightarrow> string \<Rightarrow> string list" where
  "split_from piece [] = [piece]"
| "split_from piece [c] = [piece @ [c]]"
| "split_from piece (c # d # cs) =
     (if c = CHR '';'' \<and> d = CHR '' '' then piece # split_from [] cs
      else split_from (piece @ [c]) (d # cs))"

definition split :: "string \<Rightarrow> string list" where
  "split s = split_from [] s"

fun remove_kW :: "string \<Rightarrow> string" where
  "remove_kW [] = []"
| "remove_kW (c # cs) =
     (if take 3 (c # cs) = '' kW'' then remove_kW (drop 2 cs) else c # remove_kW cs)"

subsection \<open>\<open>fetch_ocm_details\<close>\<close>

text \<open>
  A key of a JSON object as \<open>dict.get\<close> meets it: missing, present with \<open>null\<close>, or present
  with a value.
\<close>

datatype 'a member = Missing | Null | Present 'a

text \<open>
  A connection of the matched POI: the fields of \<open>connection\<close> and the \<open>Title\<close> inside
  its \<open>ConnectionType\<close> object.
\<close>

record titled_connection = connection +
  ConnectionType :: "string member member"

text \<open>
  \<open>conn.get("ConnectionType", {}).get("Title", "Unknown")\<close>: the default object stands in
  only for a missing key, so a \<open>null\<close> \<open>ConnectionType\<close> raises \<open>AttributeError\<close>; a \<open>null\<close>
  \<open>Title\<close> is \<open>None\<close>, on which \<open>"; ".join\<close> raises \<open>TypeError\<close> after the loop. Both are
  \<open>None\<close> here; \<open>except Exception\<close> turns both into the \<open>"OCM API Error"\<close> answer.
\<close>

definition conn_type :: "'a titled_connection_scheme \<Rightarrow> string option" where
  "conn_type conn =
     (case ConnectionType conn of
        Missing \<Rightarrow> Some ''Unknown''
      | Null \<Rightarrow> None
      | Present obj \<Rightarrow>
          (case obj of Missing \<Rightarrow> Some ''Unknown'' | Null \<Rightarrow> None | Present title \<Rightarrow> Some title))"

text \<open>
  The text appended to \<open>power_values\<close>: \<open>if power_kw:\<close> is false for a missing or \<open>null\<close>
  \<open>PowerKW\<close> and for the number 0.
\<close>

definition power_text :: "'a connection_scheme \<Rightarrow> string" where
  "power_text conn =
     (case PowerKW conn of
        None \<Rightarrow> ''Power Unknown''
      | Some power_kw \<Rightarrow>
          if power_kw \<noteq> 0 then format_1f power_kw @ '' kW'' else ''Power Unknown'')"

text \<open>
  The answer of the catalog to the one request: an exception of \<open>requests.get\<close> or
  \<open>resp.json()\<close> (or a body that is not a list, on which \<open>data[0]\<close> raises), or the list
  of POIs, each given by the value of its \<open>Connections\<close> key (\<open>None\<close> when the key is
  missing or \<open>null\<close>), the only key read. The coordinates of the place only choose the
  request, so they are not an argument.
\<close>

datatype ocm_reply = Request_error | Pois "titled_connection list option list"

definition fetch_ocm_details :: "string option \<Rightarrow> ocm_reply \<Rightarrow> string \<times> string" where
  "fetch_ocm_details OCM_API_KEY reply =
     (if OCM_API_KEY = None \<or> OCM_API_KEY = Some [] then (''Not Available'', ''Not Available'')
      else
        (case reply of
           Request_error \<Rightarrow> (''OCM API Error'', ''OCM API Error'')
         | Pois data \<Rightarrow>
             (case data of
                [] \<Rightarrow> (''No Match Found'', ''No Match Found'')
              | poi # others \<Rightarrow>
                  (let connections = (case poi of None \<Rightarrow> [] | Some cs \<Rightarrow> cs)
                   in if connections = []
                      then (''No Connections Listed'', ''No Connections Listed'')
                      else if list_ex (\<lambda>conn. conn_type conn = None) connections
                      then (''OCM API Error'', ''OCM API Error'')
                      else (join (map (\<lambda>conn. the (conn_type conn)) connections),
                            join (map power_text connections))))))"

subsection \<open>\<open>convert_power\<close> in \<open>clean_ev_charger_data\<close>\<close>

datatype value_error = ValueError

text \<open>
  The argument is the cell \<open>power_list\<close> after \<open>str.split("; ")\<close>: \<open>None\<close> when it is not a
  list. Only the pieces that contain \<open>"kW"\<close> are read as numbers.
\<close>

fun convert_loop :: "real list \<Rightarrow> string list \<Rightarrow> value_error + real list" where
  "convert_loop out [] = Inr out"
| "convert_loop out (p # ps) =
     (if contains p ''kW''
      then (case py_float (remove_kW p) of
              None \<Rightarrow> Inl ValueError
            | Some v \<Rightarrow> convert_loop (out @ [v]) ps)
      else convert_loop out ps)"

definition convert_power :: "string list option \<Rightarrow> value_error + real list" where
  "convert_power x = (case x of None \<Rightarrow> Inr [] | Some pieces \<Rightarrow> convert_loop [] pieces)"

section \<open>Properties of the classifier\<close>

lemma assign_charging_type_map: "assign_charging_type ps = map tier ps"
  by (induction ps) simp_all

lemma tier_mono: "p \<le> q \<Longrightarrow> tier_rank (tier p) \<le> tier_rank (tier q)"
  by (simp add: tier_def)

text \<open>
  C1. For every power reading \<open>p\<close> the tier is Slow when \<open>p < 7\<close>, Fast when
  \<open>7 \<le> p \<le> 22\<close> and Rapid when \<open>p > 22\<close>; the boundary readings 7 and 22 are Fast,
  6.9999 is Slow and 22.0001 is Rapid; the tier is monotonic in \<open>p\<close>; and
  \<open>assign_charging_type\<close> applies it to every element of its list.
\<close>

theorem tier_bands:
  "(p < 7 \<longrightarrow> tier p = Slow) \<and>
   (7 \<le> p \<and> p \<le> 22 \<longrightarrow> tier p = Fast) \<and>
   (22 < p \<longrightarrow> tier p = Rapid) \<and>
   tier 7 = Fast \<and> tier 22 = Fast \<and> tier 6.9999 = Slow \<and> tier 22.0001 = Rapid \<and>
   (\<forall>q. p \<le> q \<longrightarrow> tier_rank (tier p) \<le> tier_rank (tier q)) \<and>
   assign_charging_type ps = map tier ps"
proof -
  have bands: "(p < 7 \<longrightarrow> tier p = Slow) \<and> (7 \<le> p \<and> p \<le> 22 \<longrightarrow> tier p = Fast) \<and>
      (22 < p \<longrightarrow> tier p = Rapid)"
    by (simp add: tier_def)
  have points: "tier 7 = Fast \<and> tier 22 = Fast \<and> tier 6.9999 = Slow \<and> tier 22.0001 = Rapid"
    by (simp add: tier_def)
  have mono: "\<forall>q. p \<le> q \<longrightarrow> tier_rank (tier p) \<le> tier_rank (tier q)"
    using tier_mono by blast
  show ?thesis
    using bands points mono assign_charging_type_map by blast
qed

theorem tier_bands_witness:
  "tier 5 = Slow \<and> tier 10 = Fast \<and> tier 30 = Rapid \<and>
   tier_rank (tier 5) \<le> tier_rank (tier 30) \<and>
   assign_charging_type [5, 15, 30] = [Slow, Fast, Rapid]"
proof -
  have a: "tier 5 = Slow"
    using tier_bands [of 5 "[]"] by simp
  have b: "tier 10 = Fast"
    using tier_bands [of 10 "[]"] by simp
  have c: "tier 30 = Rapid"
    using tier_bands [of 30 "[]"] by simp
  have d: "tier_rank (tier 5) \<le> tier_rank (tier 30)"
    using tier_bands [of 5 "[]"] by simp
  have e: "assign_charging_type [5, 15, 30] = [Slow, Fast, Rapid]"
    using tier_bands [of 5 "[5, 15, 30]"] by (simp add: tier_def)
  show ?thesis
    using a b c d e by blast
qed

section \<open>Properties of the site summary\<close>


lemma not_none_empty_iff: "not_none xs = [] \<longleftrightarrow> (\<forall>x \<in> set xs. x = None)"
  by (induction xs rule: not_none.induct) simp_all

lemma max_charging_type_None_iff: "max_charging_type ts = None \<longleftrightarrow> ts = []"
proof
  assume none: "max_charging_type ts = None"
  show "ts = []"
  proof (cases ts)
    case Nil
    then show ?thesis .
  next
    case (Cons t rest)
    then have "t \<in> set ts" by simp
    with none show ?thesis
      by (cases t) (simp_all add: max_charging_type_def split: if_splits)
  qed
next
  assume "ts = []"
  then show "max_charging_type ts = None"
    by (simp add: max_charging_type_def)
qed

lemma extract_connections_unknown:
  assumes unknown: "\<forall>c \<in> set cs. PowerKW c = None"
    and info: "extract_connections (Some cs) = Some info"
  shows "Max_Charging_Type info = None \<and>
      Rapid_Charge_Available info = ''No'' \<and>
      Fast_Charge_Available info = ''No'' \<and>
      Slow_Charge_Available info = ''No''"
proof -
  from unknown have empty: "not_none (map PowerKW cs) = []"
    by (simp add: not_none_empty_iff)
  from info have "info = the (extract_connections (Some cs))"
    by simp
  then show ?thesis
    by (simp add: extract_connections_def empty yes_no_def max_charging_type_def)
qed

text \<open>
  C2. The site tier is Rapid if any connector tier is Rapid, else Fast if any is Fast, else
  Slow if any is Slow, and undefined (\<open>np.nan\<close>, the spec's Unknown) exactly for the empty
  list; and when no connection carries a power, \<open>extract_connections\<close> reports an undefined
  site tier and \<open>"No"\<close> for all three availability flags.
\<close>

theorem max_charging_type_site:
  "max_charging_type ts =
     (if Rapid \<in> set ts then Some Rapid
      else if Fast \<in> set ts then Some Fast
      else if Slow \<in> set ts then Some Slow else None) \<and>
   (max_charging_type ts = None \<longleftrightarrow> ts = []) \<and>
   ((\<forall>c \<in> set cs. PowerKW c = None) \<and> extract_connections (Some cs) = Some info \<longrightarrow>
      Max_Charging_Type info = None \<and>
      Rapid_Charge_Available info = ''No'' \<and>
      Fast_Charge_Available info = ''No'' \<and>
      Slow_Charge_Available info = ''No'')"
proof (intro conjI impI)
  show "max_charging_type ts =
     (if Rapid \<in> set ts then Some Rapid
      else if Fast \<in> set ts then Some Fast
      else if Slow \<in> set ts then Some Slow else None)"
    by (simp add: max_charging_type_def)
  show "max_charging_type ts = None \<longleftrightarrow> ts = []"
    by (rule max_charging_type_None_iff)
next
  assume h: "(\<forall>c \<in> set cs. PowerKW c = None) \<and> extract_connections (Some cs) = Some info"
  then have u: "\<forall>c \<in> set cs. PowerKW c = None"
    and i: "extract_connections (Some cs) = Some info"
    by simp_all
  note r = extract_connections_unknown [OF u i]
  from r show "Max_Charging_Type info = None" by simp
  from r show "Rapid_Charge_Available info = ''No''" by simp
  from r show "Fast_Charge_Available info = ''No''" by simp
  from r show "Slow_Charge_Available info = ''No''" by simp
qed


theorem max_charging_type_site_witness:
  "max_charging_type [Slow, Rapid, Fast] = Some Rapid \<and>
   max_charging_type [Slow, Fast] = Some Fast \<and>
   max_charging_type [Slow] = Some Slow \<and>
   max_charging_type [] = None \<and>
   Max_Charging_Type (the (extract_connections
     (Some [\<lparr>PowerKW = None, ConnectionTypeID = Some 25, CurrentTypeID = None\<rparr>]))) = None \<and>
   Rapid_Charge_Available (the (extract_connections
     (Some [\<lparr>PowerKW = None, ConnectionTypeID = Some 25, CurrentTypeID = None\<rparr>]))) = ''No''"
proof -
  let ?cs = "[\<lparr>PowerKW = None, ConnectionTypeID = Some 25, CurrentTypeID = None\<rparr>]"
  have a: "max_charging_type [Slow, Rapid, Fast] = Some Rapid"
    using max_charging_type_site [of "[Slow, Rapid, Fast]" "[]" undefined] by simp
  have b: "max_charging_type [Slow, Fast] = Some Fast"
    using max_charging_type_site [of "[Slow, Fast]" "[]" undefined] by simp
  have c: "max_charging_type [Slow] = Some Slow"
    using max_charging_type_site [of "[Slow]" "[]" undefined] by simp
  have d: "max_charging_type [] = None"
    using max_charging_type_site [of "[]" "[]" undefined] by simp
  have u: "\<forall>c \<in> set ?cs. PowerKW c = None"
    by simp
  have e: "extract_connections (Some ?cs) = Some (the (extract_connections (Some ?cs)))"
    by (simp add: extract_connections_def)
  have f: "Max_Charging_Type (the (extract_connections (Some ?cs))) = None \<and>
      Rapid_Charge_Available (the (extract_connections (Some ?cs))) = ''No''"
    using max_charging_type_site [of "[]" ?cs "the (extract_connections (Some ?cs))"] u e
    by simp
  show ?thesis
    using a b c d f by simp
qed

lemma fold_min_le: "fold (\<lambda>y m. if y < m then y else m) xs (x::real) \<le> x"
proof (induction xs arbitrary: x)
  case Nil
  show ?case by simp
next
  case (Cons y ys)
  have "fold (\<lambda>y m. if y < m then y else m) ys (if y < x then y else x)
      \<le> (if y < x then y else x)"
    by (rule Cons.IH)
  also have "\<dots> \<le> x" by simp
  finally show ?case by simp
qed

lemma fold_max_ge: "x \<le> fold (\<lambda>y m. if y > m then y else m) xs (x::real)"
proof (induction xs arbitrary: x)
  case Nil
  show ?case by simp
next
  case (Cons y ys)
  have "x \<le> (if y > x then y else x)" by simp
  also have "\<dots> \<le> fold (\<lambda>y m. if y > m then y else m) ys (if y > x then y else x)"
    by (rule Cons.IH)
  finally show ?case by simp
qed

lemma min_le_max:
  assumes "min_if_nonempty xs = Some a" and "max_if_nonempty xs = Some b"
  shows "a \<le> b"
proof (cases xs)
  case Nil
  with assms show ?thesis by simp
next
  case (Cons x rest)
  with assms have "a \<le> x" and "x \<le> b"
    using fold_min_le [of rest x] fold_max_ge [of x rest] by auto
  then show ?thesis by simp
qed

lemma min_max_defined:
  "(min_if_nonempty xs = None \<longleftrightarrow> xs = []) \<and> (max_if_nonempty xs = None \<longleftrightarrow> xs = [])"
  by (cases xs) simp_all

lemma extract_connections_power_fields:
  assumes "extract_connections (Some cs) = Some info"
  shows "Power_List info = not_none (map PowerKW cs)"
    and "Min_Power_kW info = min_if_nonempty (not_none (map PowerKW cs))"
    and "Max_Power_kW info = max_if_nonempty (not_none (map PowerKW cs))"
proof -
  from assms have eq: "info = the (extract_connections (Some cs))"
    by simp
  show "Power_List info = not_none (map PowerKW cs)"
    unfolding eq by (simp add: extract_connections_def Let_def)
  show "Min_Power_kW info = min_if_nonempty (not_none (map PowerKW cs))"
    unfolding eq by (simp add: extract_connections_def Let_def)
  show "Max_Power_kW info = max_if_nonempty (not_none (map PowerKW cs))"
    unfolding eq by (simp add: extract_connections_def Let_def)
qed

text \<open>
  C8. In the summary \<open>extract_connections\<close> builds, and for the guarded
  \<open>min(x) if len(x) > 0 else np.nan\<close> of the cleaning scripts, the minimum power is at most
  the maximum power whenever both are defined, and both are undefined (\<open>None\<close>, never 0)
  exactly when the known-power list is empty; on a non-empty list both are defined.
\<close>

theorem min_max_power:
  "(\<forall>a b. min_if_nonempty xs = Some a \<and> max_if_nonempty xs = Some b \<longrightarrow> a \<le> b) \<and>
   (min_if_nonempty xs = None \<and> max_if_nonempty xs = None \<longleftrightarrow> xs = []) \<and>
   (extract_connections (Some cs) = Some info \<longrightarrow>
      (\<forall>a b. Min_Power_kW info = Some a \<and> Max_Power_kW info = Some b \<longrightarrow> a \<le> b) \<and>
      (Min_Power_kW info = None \<and> Max_Power_kW info = None \<longleftrightarrow> Power_List info = []) \<and>
      (Power_List info \<noteq> [] \<longrightarrow> Min_Power_kW info \<noteq> None \<and> Max_Power_kW info \<noteq> None))"
proof (intro conjI impI allI)
  fix a b
  assume "min_if_nonempty xs = Some a \<and> max_if_nonempty xs = Some b"
  then show "a \<le> b"
    using min_le_max [of xs a b] by simp
next
  show "min_if_nonempty xs = None \<and> max_if_nonempty xs = None \<longleftrightarrow> xs = []"
    using min_max_defined [of xs] by simp
next
  fix a b
  assume info: "extract_connections (Some cs) = Some info"
    and "Min_Power_kW info = Some a \<and> Max_Power_kW info = Some b"
  then show "a \<le> b"
    using min_le_max [of "not_none (map PowerKW cs)" a b]
    by (simp add: extract_connections_power_fields)
next
  assume info: "extract_connections (Some cs) = Some info"
  show "Min_Power_kW info = None \<and> Max_Power_kW info = None \<longleftrightarrow> Power_List info = []"
    using min_max_defined [of "not_none (map PowerKW cs)"]
    by (simp add: extract_connections_power_fields [OF info])
next
  assume info: "extract_connections (Some cs) = Some info"
    and "Power_List info \<noteq> []"
  then show "Min_Power_kW info \<noteq> None"
    using min_max_defined [of "not_none (map PowerKW cs)"]
    by (simp add: extract_connections_power_fields [OF info])
next
  assume info: "extract_connections (Some cs) = Some info"
    and "Power_List info \<noteq> []"
  then show "Max_Power_kW info \<noteq> None"
    using min_max_defined [of "not_none (map PowerKW cs)"]
    by (simp add: extract_connections_power_fields [OF info])
qed

theorem min_max_power_witness:
  "min_if_nonempty [15, 5, 30] = Some 5 \<and> max_if_nonempty [15, 5, 30] = Some 30 \<and>
   min_if_nonempty [] = None \<and> max_if_nonempty [] = None \<and>
   (5::real) \<le> 30 \<and>
   Min_Power_kW (the (extract_connections
     (Some [\<lparr>PowerKW = Some 50, ConnectionTypeID = Some 33, CurrentTypeID = Some 30\<rparr>,
            \<lparr>PowerKW = Some 7, ConnectionTypeID = None, CurrentTypeID = None\<rparr>]))) = Some 7 \<and>
   Max_Power_kW (the (extract_connections
     (Some [\<lparr>PowerKW = Some 50, ConnectionTypeID = Some 33, CurrentTypeID = Some 30\<rparr>,
            \<lparr>PowerKW = Some 7, ConnectionTypeID = None, CurrentTypeID = None\<rparr>]))) = Some 50 \<and>
   (7::real) \<le> 50"
proof -
  let ?cs = "[\<lparr>PowerKW = Some 50, ConnectionTypeID = Some 33, CurrentTypeID = Some 30\<rparr>,
              \<lparr>PowerKW = Some 7, ConnectionTypeID = None, CurrentTypeID = None\<rparr>]"
  let ?info = "the (extract_connections (Some ?cs))"
  have lo: "min_if_nonempty [15, 5, 30] = Some 5" by simp
  have hi: "max_if_nonempty [15, 5, 30] = Some 30" by simp
  have le: "(5::real) \<le> 30"
    using min_max_power [of "[15, 5, 30]" "[]" undefined] lo hi by blast
  have e: "extract_connections (Some ?cs) = Some ?info"
    by (simp add: extract_connections_def Let_def)
  have mn: "Min_Power_kW ?info = Some 7"
    by (simp add: extract_connections_def Let_def)
  have mx: "Max_Power_kW ?info = Some 50"
    by (simp add: extract_connections_def Let_def)
  have le2: "(7::real) \<le> 50"
    using min_max_power [of "[]" ?cs ?info] e mn mx by blast
  show ?thesis
    using lo hi le mn mx le2 by simp
qed

section \<open>Properties of the catalog cleaning\<close>

lemma fillna_Unknown_iff: "fillna c = Unknown \<longleftrightarrow> c = None"
  by (cases c) (simp_all add: fillna_def)

lemma powers_known_type:
  assumes "powers \<noteq> []"
  shows "max_charging_type (assign_charging_type powers) \<noteq> None"
proof -
  from assms have "assign_charging_type powers \<noteq> []"
    by (simp add: assign_charging_type_map)
  then show ?thesis
    by (simp add: max_charging_type_None_iff)
qed

lemma extract_connections_Some:
  "extract_connections (Some cs) = Some info \<Longrightarrow>
     Number_of_Connectors info = length cs \<and>
     Max_Charging_Type info =
       max_charging_type (if not_none (map PowerKW cs) \<noteq> []
                          then assign_charging_type (not_none (map PowerKW cs)) else [])"
proof -
  assume "extract_connections (Some cs) = Some info"
  then have eq: "info = the (extract_connections (Some cs))"
    by simp
  show ?thesis
    unfolding eq by (simp add: extract_connections_def Let_def)
qed

lemma dropna_keeps_known:
  assumes "dropna_keeps p"
  obtains cs info where "Connections p = Some cs"
    and "extract_connections (Some cs) = Some info"
    and "not_none (map PowerKW cs) \<noteq> []"
    and "Min_Power_kW info \<noteq> None" and "Max_Power_kW info \<noteq> None"
    and "Max_Charging_Type info \<noteq> None"
    and "Latitude (AddressInfo p) \<noteq> None" and "Longitude (AddressInfo p) \<noteq> None"
proof -
  from assms obtain info where info: "extract_connections (Connections p) = Some info"
    and mn: "Min_Power_kW info \<noteq> None" and mx: "Max_Power_kW info \<noteq> None"
    and lat: "Latitude (AddressInfo p) \<noteq> None" and lng: "Longitude (AddressInfo p) \<noteq> None"
    by (auto simp: dropna_keeps_def split: option.splits)
  from info obtain cs where cs: "Connections p = Some cs"
    by (cases "Connections p") (simp_all add: extract_connections_def)
  from info cs have info': "extract_connections (Some cs) = Some info"
    by simp
  have known: "not_none (map PowerKW cs) \<noteq> []"
    using mn extract_connections_power_fields [OF info'] min_max_defined by metis
  have mt: "Max_Charging_Type info \<noteq> None"
    using extract_connections_Some [OF info'] known powers_known_type by simp
  from cs info' known mn mx mt lat lng show ?thesis
    by (rule that)
qed

lemma dropna_drops_unknown:
  assumes "Connections p = Some cs" and "\<forall>c \<in> set cs. PowerKW c = None"
  shows "\<not> dropna_keeps p"
proof
  assume "dropna_keeps p"
  then obtain cs' where "Connections p = Some cs'" and "not_none (map PowerKW cs') \<noteq> []"
    by (rule dropna_keeps_known)
  with assms show False
    by (simp add: not_none_empty_iff)
qed

lemma export_columns:
  "Latitude_col (export p) = fillna (Latitude (AddressInfo p))"
  "Longitude_col (export p) = fillna (Longitude (AddressInfo p))"
  "Number_of_Connectors_col (export p) =
     fillna (map_option Number_of_Connectors (extract_connections (Connections p)))"
  "Min_Power_kW_col (export p) =
     fillna (Option.bind (extract_connections (Connections p)) Min_Power_kW)"
  "Max_Power_kW_col (export p) =
     fillna (Option.bind (extract_connections (Connections p)) Max_Power_kW)"
  "Max_Charging_Type_col (export p) =
     fillna (Option.bind (extract_connections (Connections p)) Max_Charging_Type)"
  by (simp_all add: export_def Let_def)

lemma export_kept_defined:
  assumes "dropna_keeps p"
  shows "Number_of_Connectors_col (export p) \<noteq> Unknown \<and>
         Min_Power_kW_col (export p) \<noteq> Unknown \<and>
         Max_Power_kW_col (export p) \<noteq> Unknown \<and>
         Latitude_col (export p) \<noteq> Unknown \<and>
         Longitude_col (export p) \<noteq> Unknown \<and>
         Max_Charging_Type_col (export p) \<noteq> Unknown"
proof -
  from assms obtain cs info where "Connections p = Some cs"
    and "extract_connections (Some cs) = Some info"
    and "Min_Power_kW info \<noteq> None" and "Max_Power_kW info \<noteq> None"
    and "Max_Charging_Type info \<noteq> None"
    and "Latitude (AddressInfo p) \<noteq> None" and "Longitude (AddressInfo p) \<noteq> None"
    by (rule dropna_keeps_known)
  then show ?thesis
    by (simp add: export_columns fillna_Unknown_iff)
qed

lemma set_keep_last_subset: "set (keep_last key rs) \<subseteq> set rs"
  by (induction rs) auto

lemma catalog_rows_from_kept:
  assumes "df_export pois = Inr rows \<or> df_final pois = Inr rows"
  shows "set rows \<subseteq> export ` {p \<in> set pois. dropna_keeps p}"
proof -
  from assms consider (script) "df_export pois = Inr rows" | (cloud) "df_final pois = Inr rows"
    by blast
  then show ?thesis
  proof cases
    case script
    then have "rows = map export (filter dropna_keeps pois)"
      by (simp add: df_export_def split: if_splits)
    then show ?thesis by auto
  next
    case cloud
    then obtain rows' where a: "df_export pois = Inr rows'"
      and b: "rows = drop_duplicates_keep_last rows'"
      by (auto simp: df_final_def split: sum.splits)
    from a have "rows' = map export (filter dropna_keeps pois)"
      by (simp add: df_export_def split: if_splits)
    with b set_keep_last_subset [of "\<lambda>r. r" rows'] show ?thesis
      by (auto simp: drop_duplicates_keep_last_def)
  qed
qed

text \<open>
  C9. In both catalog variants every row of the exported frame (\<open>df_export\<close> of the offline
  script, \<open>df_final\<close> handed to the warehouse by Option 02) comes from a POI whose connection
  list has at least one known power, and its \<open>Number_of_Connectors\<close>, \<open>Min_Power_kW\<close>,
  \<open>Max_Power_kW\<close>, \<open>Latitude\<close> and \<open>Longitude\<close> cells are defined and its
  \<open>Max_Charging_Type\<close> is not \<open>"Unknown"\<close>; the row of a POI none of whose connections has
  a power is not in the frame.
\<close>

theorem catalog_rows_defined:
  "df_export pois = Inr rows \<or> df_final pois = Inr rows \<longrightarrow>
     (\<forall>r \<in> set rows.
        (\<exists>p \<in> set pois. \<exists>cs. r = export p \<and> Connections p = Some cs \<and>
            not_none (map PowerKW cs) \<noteq> []) \<and>
        Number_of_Connectors_col r \<noteq> Unknown \<and>
        Min_Power_kW_col r \<noteq> Unknown \<and>
        Max_Power_kW_col r \<noteq> Unknown \<and>
        Latitude_col r \<noteq> Unknown \<and>
        Longitude_col r \<noteq> Unknown \<and>
        Max_Charging_Type_col r \<noteq> Unknown) \<and>
     (\<forall>p \<in> set pois. \<forall>cs. Connections p = Some cs \<and> (\<forall>c \<in> set cs. PowerKW c = None) \<longrightarrow>
        export p \<notin> set rows)"
proof (intro impI conjI ballI allI)
  fix r
  assume out: "df_export pois = Inr rows \<or> df_final pois = Inr rows" and r: "r \<in> set rows"
  from catalog_rows_from_kept [OF out] r obtain p
    where p: "p \<in> set pois" "dropna_keeps p" "r = export p"
    by auto
  from p(2) obtain cs where "Connections p = Some cs" "not_none (map PowerKW cs) \<noteq> []"
    by (rule dropna_keeps_known)
  with p show "\<exists>p \<in> set pois. \<exists>cs. r = export p \<and> Connections p = Some cs \<and>
      not_none (map PowerKW cs) \<noteq> []"
    by blast
  note d = export_kept_defined [OF p(2)]
  from d p(3) show "Number_of_Connectors_col r \<noteq> Unknown" by simp
  from d p(3) show "Min_Power_kW_col r \<noteq> Unknown" by simp
  from d p(3) show "Max_Power_kW_col r \<noteq> Unknown" by simp
  from d p(3) show "Latitude_col r \<noteq> Unknown" by simp
  from d p(3) show "Longitude_col r \<noteq> Unknown" by simp
  from d p(3) show "Max_Charging_Type_col r \<noteq> Unknown" by simp
next
  fix p cs
  assume out: "df_export pois = Inr rows \<or> df_final pois = Inr rows"
    and p: "p \<in> set pois"
    and unknown: "Connections p = Some cs \<and> (\<forall>c \<in> set cs. PowerKW c = None)"
  show "export p \<notin> set rows"
  proof
    assume "export p \<in> set rows"
    with catalog_rows_from_kept [OF out] obtain q
      where q: "dropna_keeps q" "export p = export q"
      by auto
    from unknown have "not_none (map PowerKW cs) = []"
      by (simp add: not_none_empty_iff)
    with unknown have "Min_Power_kW_col (export p) = Unknown"
      by (simp add: export_columns extract_connections_def fillna_def)
    moreover from export_kept_defined [OF q(1)] q(2)
    have "Min_Power_kW_col (export p) \<noteq> Unknown"
      by simp
    ultimately show False by simp
  qed
qed

theorem catalog_rows_defined_witness:
  "df_final
     [\<lparr>ID = 1, AddressInfo = \<lparr>Latitude = Some 51.5, Longitude = Some (- 0.1)\<rparr>,
        Connections = Some [\<lparr>PowerKW = Some 50, ConnectionTypeID = Some 33,
                               CurrentTypeID = Some 30\<rparr>],
        Other = ''Rapid hub''\<rparr>,
      \<lparr>ID = 2, AddressInfo = \<lparr>Latitude = Some 51.5, Longitude = Some (- 0.1)\<rparr>,
        Connections = Some [\<lparr>PowerKW = None, ConnectionTypeID = Some 25,
                               CurrentTypeID = None\<rparr>],
        Other = ''Lamp post''\<rparr>] =
   Inr [\<lparr>Place_ID = 1, Descriptive = ''Rapid hub'', Latitude_col = Value 51.5,
          Longitude_col = Value (- 0.1), Number_of_Connectors_col = Value 1,
          Min_Power_kW_col = Value 50, Max_Power_kW_col = Value 50,
          Max_Charging_Type_col = Value Rapid,
          Rapid_Charge_Available_col = Value ''Yes'',
          Fast_Charge_Available_col = Value ''No'',
          Slow_Charge_Available_col = Value ''No''\<rparr>] \<and>
   Max_Charging_Type_col
     (export \<lparr>ID = 1, AddressInfo = \<lparr>Latitude = Some 51.5, Longitude = Some (- 0.1)\<rparr>,
        Connections = Some [\<lparr>PowerKW = Some 50, ConnectionTypeID = Some 33,
                               CurrentTypeID = Some 30\<rparr>],
        Other = ''Rapid hub''\<rparr>) \<noteq> Unknown"
proof -
  let ?p1 = "\<lparr>ID = 1, AddressInfo = \<lparr>Latitude = Some 51.5, Longitude = Some (- 0.1)\<rparr>,
        Connections = Some [\<lparr>PowerKW = Some 50, ConnectionTypeID = Some 33,
                               CurrentTypeID = Some 30\<rparr>],
        Other = ''Rapid hub''\<rparr>"
  let ?p2 = "\<lparr>ID = 2, AddressInfo = \<lparr>Latitude = Some 51.5, Longitude = Some (- 0.1)\<rparr>,
        Connections = Some [\<lparr>PowerKW = None, ConnectionTypeID = Some 25,
                               CurrentTypeID = None\<rparr>],
        Other = ''Lamp post''\<rparr>"
  have keep: "dropna_keeps ?p1"
    by (simp add: dropna_keeps_def extract_connections_def Let_def)
  have drop: "\<not> dropna_keeps ?p2"
    by (simp add: dropna_keeps_def extract_connections_def Let_def)
  have some: "extract_connections (Connections ?p1) \<noteq> None"
    by (simp add: extract_connections_def Let_def)
  have frame: "df_export [?p1, ?p2] = Inr [export ?p1]"
    using keep drop some by (simp add: df_export_def)
  have final: "df_final [?p1, ?p2] = Inr [export ?p1]"
    using frame by (simp add: df_final_def drop_duplicates_keep_last_def)
  have row: "export ?p1 = \<lparr>Place_ID = 1, Descriptive = ''Rapid hub'', Latitude_col = Value 51.5,
          Longitude_col = Value (- 0.1), Number_of_Connectors_col = Value 1,
          Min_Power_kW_col = Value 50, Max_Power_kW_col = Value 50,
          Max_Charging_Type_col = Value Rapid,
          Rapid_Charge_Available_col = Value ''Yes'',
          Fast_Charge_Available_col = Value ''No'',
          Slow_Charge_Available_col = Value ''No''\<rparr>"
    by (simp add: export_def extract_connections_def Let_def fillna_def tier_def
        max_charging_type_def yes_no_def)
  have "Max_Charging_Type_col (export ?p1) \<noteq> Unknown"
    using catalog_rows_defined [of "[?p1, ?p2]" "[export ?p1]"] final by simp
  with final row show ?thesis
    by simp
qed

section \<open>Properties of the duplicate removal\<close>

lemma keep_first_filter:
  "filter (\<lambda>r. key r = k) (keep_first key ks rs) =
     (if k \<in> set ks then [] else take 1 (filter (\<lambda>r. key r = k) rs))"
proof (induction rs arbitrary: ks)
  case Nil
  show ?case by simp
next
  case (Cons r rs)
  show ?case
  proof (cases "key r \<in> set ks")
    case True
    then show ?thesis
      using Cons.IH [of ks] by auto
  next
    case False
    then show ?thesis
      using Cons.IH [of "key r # ks"] by auto
  qed
qed

lemma find_take_filter:
  "find P rs = Some r \<Longrightarrow> take 1 (filter P rs) = [r]"
  by (induction rs) (auto split: if_splits)

lemma keep_first_keys:
  "distinct (map key (keep_first key ks rs)) \<and>
   set (map key (keep_first key ks rs)) = key ` set rs - set ks"
proof (induction rs arbitrary: ks)
  case Nil
  show ?case by simp
next
  case (Cons r rs)
  show ?case
  proof (cases "key r \<in> set ks")
    case True
    then show ?thesis
      using Cons.IH [of ks] by auto
  next
    case False
    then show ?thesis
      using Cons.IH [of "key r # ks"] by auto
  qed
qed

lemma keep_last_rows:
  "distinct (keep_last (\<lambda>r. r) rs) \<and> set (keep_last (\<lambda>r. r) rs) = set rs"
  by (induction rs) auto

text \<open>
  C3 (as the code has it). Option 01 removes duplicates by \<open>place_id\<close> keeping the
  first-seen record of each key: after \<open>drop_duplicates(subset=["place_id"])\<close> the records
  with a given key that occurs in the batch are exactly one, the first record of the batch
  with that key, and no key occurs twice. The two other variants compare whole rows: every
  distinct row of the batch survives exactly once (Option 02 keeps it at its last
  position, \<open>data_cleaning_OCM_GPA.py\<close> at its first).
\<close>

theorem drop_duplicates_first_wins:
  "(find (\<lambda>r'. key r' = k) batch = Some r \<longrightarrow>
      filter (\<lambda>r'. key r' = k) (drop_duplicates_subset key batch) = [r]) \<and>
   distinct (map key (drop_duplicates_subset key batch)) \<and>
   key ` set (drop_duplicates_subset key batch) = key ` set batch \<and>
   distinct (drop_duplicates_keep_last rows) \<and>
   set (drop_duplicates_keep_last rows) = set rows \<and>
   distinct (drop_duplicates rows) \<and>
   set (drop_duplicates rows) = set rows"
proof (intro conjI impI)
  assume "find (\<lambda>r'. key r' = k) batch = Some r"
  then have "take 1 (filter (\<lambda>r'. key r' = k) batch) = [r]"
    by (rule find_take_filter)
  then show "filter (\<lambda>r'. key r' = k) (drop_duplicates_subset key batch) = [r]"
    by (simp add: drop_duplicates_subset_def keep_first_filter)
next
  show "distinct (map key (drop_duplicates_subset key batch))"
    using keep_first_keys [of key "[]" batch] by (simp add: drop_duplicates_subset_def)
  show "key ` set (drop_duplicates_subset key batch) = key ` set batch"
    using keep_first_keys [of key "[]" batch] by (simp add: drop_duplicates_subset_def)
  show "distinct (drop_duplicates_keep_last rows)"
    using keep_last_rows [of rows] by (simp add: drop_duplicates_keep_last_def)
  show "set (drop_duplicates_keep_last rows) = set rows"
    using keep_last_rows [of rows] by (simp add: drop_duplicates_keep_last_def)
  have whole: "distinct (map (\<lambda>r. r) (keep_first (\<lambda>r. r) [] rows)) \<and>
      set (map (\<lambda>r. r) (keep_first (\<lambda>r. r) [] rows)) = (\<lambda>r. r) ` set rows - set []"
    by (rule keep_first_keys)
  from whole show "distinct (drop_duplicates rows)"
    by (simp add: drop_duplicates_def)
  from whole show "set (drop_duplicates rows) = set rows"
    by (simp add: drop_duplicates_def)
qed

theorem drop_duplicates_first_wins_witness:
  "drop_duplicates_subset fst
     [(''ChIJ-A'', ''first''), (''ChIJ-B'', ''other''), (''ChIJ-A'', ''second'')] =
     [(''ChIJ-A'', ''first''), (''ChIJ-B'', ''other'')] \<and>
   filter (\<lambda>r'. fst r' = ''ChIJ-A'')
     (drop_duplicates_subset fst
        [(''ChIJ-A'', ''first''), (''ChIJ-B'', ''other''), (''ChIJ-A'', ''second'')]) =
     [(''ChIJ-A'', ''first'')]"
proof -
  let ?batch = "[(''ChIJ-A'', ''first''), (''ChIJ-B'', ''other''), (''ChIJ-A'', ''second'')]"
  have found: "find (\<lambda>r'. fst r' = ''ChIJ-A'') ?batch = Some (''ChIJ-A'', ''first'')"
    by simp
  have one: "filter (\<lambda>r'. fst r' = ''ChIJ-A'') (drop_duplicates_subset fst ?batch) =
      [(''ChIJ-A'', ''first'')]"
    using drop_duplicates_first_wins
      [of fst "''ChIJ-A''" ?batch "(''ChIJ-A'', ''first'')" "[]"] found
    by blast
  have run: "drop_duplicates_subset fst ?batch =
      [(''ChIJ-A'', ''first''), (''ChIJ-B'', ''other'')]"
    by (simp add: drop_duplicates_subset_def)
  from run one show ?thesis
    by (rule conjI)
qed

text \<open>
  C3 as stated fails: of two records with the same \<open>place_id\<close>, Option 01 keeps the first,
  not the last one of the batch.
\<close>

theorem drop_duplicates_last_wins_counterexample:
  "drop_duplicates_subset fst [(''ChIJ-A'', ''first''), (''ChIJ-A'', ''second'')] =
     [(''ChIJ-A'', ''first'')] \<and>
   last (filter (\<lambda>r'. fst r' = ''ChIJ-A'')
     [(''ChIJ-A'', ''first''), (''ChIJ-A'', ''second'')]) = (''ChIJ-A'', ''second'') \<and>
   (''ChIJ-A'', ''first'') \<noteq> (''ChIJ-A'', ''second'')"
  by (simp add: drop_duplicates_subset_def)

section \<open>Properties of the incremental load\<close>

lemma load_existing:
  assumes "table bq = Some rows"
  shows "load_to_bigquery_incremental key df bq =
     (if filter (\<lambda>r. key r \<notin> key ` set rows) df = [] then Inr (''No new data'', bq)
      else Inr (''OK'', bq\<lparr>table := Some (rows @ filter (\<lambda>r. key r \<notin> key ` set rows) df),
                load_jobs := load_jobs bq @
                  [(WRITE_APPEND, filter (\<lambda>r. key r \<notin> key ` set rows) df)]\<rparr>))"
  using assms
  by (simp add: load_to_bigquery_incremental_def load_table_from_dataframe_def Let_def)

lemma load_existing_02:
  assumes "table bq = Some rows"
  shows "load_to_bigquery_incremental_02 key df bq =
     (if filter (\<lambda>r. key r \<notin> key ` set rows) df = [] then Inr (table_id, bq)
      else Inr (table_id, bq\<lparr>table := Some (rows @ filter (\<lambda>r. key r \<notin> key ` set rows) df),
                load_jobs := load_jobs bq @
                  [(WRITE_APPEND, filter (\<lambda>r. key r \<notin> key ` set rows) df)]\<rparr>))"
  using assms
  by (simp add: load_to_bigquery_incremental_02_def load_table_from_dataframe_def Let_def)

lemma load_absent:
  assumes "table bq = None"
  shows "load_to_bigquery_incremental key df bq =
       Inr (''OK'', bq\<lparr>table := Some df, load_jobs := load_jobs bq @ [(WRITE_EMPTY, df)]\<rparr>)"
    and "load_to_bigquery_incremental_02 key df bq =
       Inr (table_id, bq\<lparr>table := Some df, load_jobs := load_jobs bq @ [(WRITE_EMPTY, df)]\<rparr>)"
  using assms
  by (simp_all add: load_to_bigquery_incremental_def load_to_bigquery_incremental_02_def
      load_table_from_dataframe_def)

text \<open>
  C4. When the destination table exists, the incremental load appends exactly the records
  of the batch whose key is not among the keys read from the table, in one \<open>WRITE_APPEND\<close>
  job; and when no such record remains it returns its "no new data" answer (Option 01 the
  message \<open>"No new data"\<close>, Option 02 its \<open>table_id\<close>) as a normal result, with the
  warehouse unchanged and no load job run.
\<close>

theorem load_appends_new_only:
  "table bq = Some rows \<longrightarrow>
     (\<exists>msg bq'. load_to_bigquery_incremental key df bq = Inr (msg, bq') \<and>
        table bq' = Some (rows @ filter (\<lambda>r. key r \<notin> key ` set rows) df) \<and>
        (filter (\<lambda>r. key r \<notin> key ` set rows) df = [] \<longrightarrow>
           msg = ''No new data'' \<and> bq' = bq) \<and>
        (filter (\<lambda>r. key r \<notin> key ` set rows) df \<noteq> [] \<longrightarrow>
           msg = ''OK'' \<and>
           load_jobs bq' = load_jobs bq @
             [(WRITE_APPEND, filter (\<lambda>r. key r \<notin> key ` set rows) df)])) \<and>
     (\<exists>bq'. load_to_bigquery_incremental_02 key df bq = Inr (table_id, bq') \<and>
        table bq' = Some (rows @ filter (\<lambda>r. key r \<notin> key ` set rows) df) \<and>
        (filter (\<lambda>r. key r \<notin> key ` set rows) df = [] \<longrightarrow> bq' = bq) \<and>
        (filter (\<lambda>r. key r \<notin> key ` set rows) df \<noteq> [] \<longrightarrow>
           load_jobs bq' = load_jobs bq @
             [(WRITE_APPEND, filter (\<lambda>r. key r \<notin> key ` set rows) df)]))"
proof (intro impI conjI)
  assume t: "table bq = Some rows"
  let ?new = "filter (\<lambda>r. key r \<notin> key ` set rows) df"
  show "\<exists>msg bq'. load_to_bigquery_incremental key df bq = Inr (msg, bq') \<and>
        table bq' = Some (rows @ ?new) \<and>
        (?new = [] \<longrightarrow> msg = ''No new data'' \<and> bq' = bq) \<and>
        (?new \<noteq> [] \<longrightarrow> msg = ''OK'' \<and>
           load_jobs bq' = load_jobs bq @ [(WRITE_APPEND, ?new)])"
  proof (cases "?new = []")
    case True
    with t have "load_to_bigquery_incremental key df bq = Inr (''No new data'', bq)"
      by (simp add: load_existing)
    with True t show ?thesis by simp
  next
    case False
    with t have "load_to_bigquery_incremental key df bq =
        Inr (''OK'', bq\<lparr>table := Some (rows @ ?new),
                        load_jobs := load_jobs bq @ [(WRITE_APPEND, ?new)]\<rparr>)"
      by (simp add: load_existing)
    with False show ?thesis by simp
  qed
  show "\<exists>bq'. load_to_bigquery_incremental_02 key df bq = Inr (table_id, bq') \<and>
        table bq' = Some (rows @ ?new) \<and>
        (?new = [] \<longrightarrow> bq' = bq) \<and>
        (?new \<noteq> [] \<longrightarrow> load_jobs bq' = load_jobs bq @ [(WRITE_APPEND, ?new)])"
  proof (cases "?new = []")
    case True
    with t have "load_to_bigquery_incremental_02 key df bq = Inr (table_id, bq)"
      by (simp add: load_existing_02)
    with True t show ?thesis by simp
  next
    case False
    with t have "load_to_bigquery_incremental_02 key df bq =
        Inr (table_id, bq\<lparr>table := Some (rows @ ?new),
                        load_jobs := load_jobs bq @ [(WRITE_APPEND, ?new)]\<rparr>)"
      by (simp add: load_existing_02)
    with False show ?thesis by simp
  qed
qed

theorem load_appends_new_only_witness:
  "load_to_bigquery_incremental fst [(''A'', 1), (''B'', 2), (''C'', 3 :: nat)]
     \<lparr>table = Some [(''B'', 7)], load_jobs = []\<rparr> =
     Inr (''OK'', \<lparr>table = Some [(''B'', 7), (''A'', 1), (''C'', 3)],
                  load_jobs = [(WRITE_APPEND, [(''A'', 1), (''C'', 3)])]\<rparr>) \<and>
   load_to_bigquery_incremental fst [(''B'', 2 :: nat)]
     \<lparr>table = Some [(''B'', 7)], load_jobs = []\<rparr> =
     Inr (''No new data'', \<lparr>table = Some [(''B'', 7)], load_jobs = []\<rparr>)"
proof -
  let ?bq = "\<lparr>table = Some [(''B'', 7 :: nat)], load_jobs = []\<rparr>"
  have t: "table ?bq = Some [(''B'', 7)]"
    by simp
  have none: "filter (\<lambda>r. fst r \<notin> fst ` set [(''B'', 7 :: nat)]) [(''B'', 2 :: nat)] = []"
    by simp
  have first: "load_to_bigquery_incremental fst [(''A'', 1), (''B'', 2), (''C'', 3 :: nat)] ?bq =
     Inr (''OK'', \<lparr>table = Some [(''B'', 7), (''A'', 1), (''C'', 3)],
                  load_jobs = [(WRITE_APPEND, [(''A'', 1), (''C'', 3)])]\<rparr>)"
    by (simp add: load_existing)
  from load_appends_new_only [of ?bq "[(''B'', 7)]" fst "[(''B'', 2)]"] t
  have second: "load_to_bigquery_incremental fst [(''B'', 2 :: nat)] ?bq =
      Inr (''No new data'', ?bq)"
    unfolding none by auto
  from first second show ?thesis
    by (rule conjI)
qed

lemma second_filter_empty:
  "filter (\<lambda>r. key r \<notin> key ` set (rows @ filter (\<lambda>r. key r \<notin> key ` set rows) df)) df = []"
  by (auto simp: filter_empty_conv)

lemma filter_own_keys_empty: "filter (\<lambda>r. key r \<notin> key ` set df) df = []"
  by (auto simp: filter_empty_conv)

text \<open>
  C7. Running the incremental load a second time with the same batch, on the warehouse
  the first run left, appends nothing: the first run succeeds, and the second run returns
  the "no new data" answer, leaves the warehouse as it is and runs no load job.
\<close>

theorem second_load_appends_nothing:
  "(\<exists>msg bq'. load_to_bigquery_incremental key df bq = Inr (msg, bq') \<and>
      load_to_bigquery_incremental key df bq' = Inr (''No new data'', bq')) \<and>
   (\<exists>bq'. load_to_bigquery_incremental_02 key df bq = Inr (table_id, bq') \<and>
      load_to_bigquery_incremental_02 key df bq' = Inr (table_id, bq'))"
proof (cases "table bq")
  case None
  let ?bq' = "bq\<lparr>table := Some df, load_jobs := load_jobs bq @ [(WRITE_EMPTY, df)]\<rparr>"
  have t': "table ?bq' = Some df"
    by simp
  have a: "load_to_bigquery_incremental key df bq = Inr (''OK'', ?bq')"
    using None by (rule load_absent(1))
  have b: "load_to_bigquery_incremental key df ?bq' = Inr (''No new data'', ?bq')"
    unfolding load_existing [OF t'] by (simp only: filter_own_keys_empty) simp
  have c: "load_to_bigquery_incremental_02 key df bq = Inr (table_id, ?bq')"
    using None by (rule load_absent(2))
  have d: "load_to_bigquery_incremental_02 key df ?bq' = Inr (table_id, ?bq')"
    unfolding load_existing_02 [OF t'] by (simp only: filter_own_keys_empty) simp
  from a b c d show ?thesis
    by blast
next
  case (Some rows)
  let ?new = "filter (\<lambda>r. key r \<notin> key ` set rows) df"
  show ?thesis
  proof (cases "?new = []")
    case True
    have a: "load_to_bigquery_incremental key df bq = Inr (''No new data'', bq)"
      unfolding load_existing [OF Some] using True by simp
    have c: "load_to_bigquery_incremental_02 key df bq = Inr (table_id, bq)"
      unfolding load_existing_02 [OF Some] using True by simp
    from a c show ?thesis
      by blast
  next
    case False
    let ?bq' = "bq\<lparr>table := Some (rows @ ?new),
                    load_jobs := load_jobs bq @ [(WRITE_APPEND, ?new)]\<rparr>"
    have t': "table ?bq' = Some (rows @ ?new)"
      by simp
    have a: "load_to_bigquery_incremental key df bq = Inr (''OK'', ?bq')"
      unfolding load_existing [OF Some] using False by simp
    have b: "load_to_bigquery_incremental key df ?bq' = Inr (''No new data'', ?bq')"
      unfolding load_existing [OF t'] by (simp only: second_filter_empty) simp
    have c: "load_to_bigquery_incremental_02 key df bq = Inr (table_id, ?bq')"
      unfolding load_existing_02 [OF Some] using False by simp
    have d: "load_to_bigquery_incremental_02 key df ?bq' = Inr (table_id, ?bq')"
      unfolding load_existing_02 [OF t'] by (simp only: second_filter_empty) simp
    from a b c d show ?thesis
      by blast
  qed
qed

theorem second_load_appends_nothing_witness:
  "load_to_bigquery_incremental fst [(''A'', 1), (''B'', 2 :: nat)]
     \<lparr>table = Some [(''B'', 7)], load_jobs = []\<rparr> =
     Inr (''OK'', \<lparr>table = Some [(''B'', 7), (''A'', 1)],
                  load_jobs = [(WRITE_APPEND, [(''A'', 1)])]\<rparr>) \<and>
   load_to_bigquery_incremental fst [(''A'', 1), (''B'', 2 :: nat)]
     \<lparr>table = Some [(''B'', 7), (''A'', 1)],
      load_jobs = [(WRITE_APPEND, [(''A'', 1)])]\<rparr> =
     Inr (''No new data'', \<lparr>table = Some [(''B'', 7), (''A'', 1)],
                  load_jobs = [(WRITE_APPEND, [(''A'', 1)])]\<rparr>)"
proof -
  let ?bq = "\<lparr>table = Some [(''B'', 7 :: nat)], load_jobs = []\<rparr>"
  let ?df = "[(''A'', 1), (''B'', 2 :: nat)]"
  let ?bq' = "\<lparr>table = Some [(''B'', 7), (''A'', 1 :: nat)],
                load_jobs = [(WRITE_APPEND, [(''A'', 1 :: nat)])]\<rparr>"
  have first: "load_to_bigquery_incremental fst ?df ?bq = Inr (''OK'', ?bq')"
    by (simp add: load_existing)
  from second_load_appends_nothing [of fst ?df ?bq]
  obtain msg bq' where a: "load_to_bigquery_incremental fst ?df ?bq = Inr (msg, bq')"
    and b: "load_to_bigquery_incremental fst ?df bq' = Inr (''No new data'', bq')"
    by blast
  from a first have "bq' = ?bq'"
    by simp
  with b have second: "load_to_bigquery_incremental fst ?df ?bq' = Inr (''No new data'', ?bq')"
    by simp
  from first second show ?thesis
    by (rule conjI)
qed

section \<open>Properties of the rate-limited fetch\<close>

lemma safe_get_loop_requests:
  "fst (snd (safe_get_loop server max_retries retry slept)) \<le> max max_retries retry"
proof (induction server max_retries retry slept rule: safe_get_loop.induct)
  case (1 server max_retries retry slept)
  show ?case
    apply (subst safe_get_loop.simps)
    using 1 by (auto split: attempt.splits option.splits)
qed

lemma safe_get_requests_bound: "fst (snd (safe_get server max_retries)) \<le> max_retries"
  using safe_get_loop_requests [of server max_retries 0 "[]"] by (simp add: safe_get_def)

lemma safe_get_loop_no_exception:
  assumes "\<And>n r. server n = Got r \<Longrightarrow> status_code r = 429 \<Longrightarrow>
      header_readable (retry_after_header r)"
  shows "fst (safe_get_loop server max_retries retry slept) \<noteq> Raised_ValueError"
  using assms
proof (induction server max_retries retry slept rule: safe_get_loop.induct)
  case (1 server max_retries retry slept)
  show ?case
  proof (cases "retry < max_retries")
    case False
    then show ?thesis
      by (subst safe_get_loop.simps) simp
  next
    case True
    show ?thesis
    proof (cases "server retry")
      case Request_exception
      with True "1.IH"(3) "1.prems" show ?thesis
        by (subst safe_get_loop.simps) simp
    next
      case (Got response)
      show ?thesis
      proof (cases "status_code response = 429")
        case False
        with True Got "1.IH"(2) "1.prems" show ?thesis
          by (subst safe_get_loop.simps) simp
      next
        case limited: True
        with Got "1.prems" have readable: "header_readable (retry_after_header response)"
          by blast
        have "\<exists>w. (case retry_after_header response of
              None \<Rightarrow> Some (2 ^ retry)
            | Some retry_after \<Rightarrow>
                if retry_after \<noteq> [] then py_int retry_after else Some (2 ^ retry)) =
            Some w \<and> \<not> w < 0"
        proof (cases "retry_after_header response")
          case None
          then show ?thesis by simp
        next
          case (Some s)
          show ?thesis
          proof (cases "s = []")
            case True
            with Some show ?thesis by simp
          next
            case False
            with Some readable obtain w where "py_int s = Some w" and "0 \<le> w"
              by (auto simp: header_readable_def split: option.splits)
            with Some False show ?thesis by simp
          qed
        qed
        then obtain wait_time where wait: "(case retry_after_header response of
              None \<Rightarrow> Some (2 ^ retry)
            | Some retry_after \<Rightarrow>
                if retry_after \<noteq> [] then py_int retry_after else Some (2 ^ retry)) =
            Some wait_time" and pos: "\<not> wait_time < 0"
          by blast
        from True Got limited wait pos "1.IH"(1) "1.prems" show ?thesis
          by (subst safe_get_loop.simps) simp
      qed
    qed
  qed
qed

lemma safe_get_no_exception:
  assumes "\<And>n r. server n = Got r \<Longrightarrow> status_code r = 429 \<Longrightarrow>
      header_readable (retry_after_header r)"
  shows "fst (safe_get server max_retries) \<noteq> Raised_ValueError"
  using safe_get_loop_no_exception [OF assms] by (simp add: safe_get_def)

lemma five_failures_skip:
  "safe_get (\<lambda>n. Request_exception) default_max_retries = (Skipped, 5, [1, 2, 4, 8, 16])"
  by (simp add: safe_get_def default_max_retries_def safe_get_loop.simps)

lemma no_sixth_request:
  "safe_get (\<lambda>n. if n < 5 then Got (Response 429 None ()) else Got (Response 200 None ()))
     default_max_retries = (Skipped, 5, [1, 2, 4, 8, 16])"
  by (simp add: safe_get_def default_max_retries_def safe_get_loop.simps)

lemma retry_after_honoured:
  "safe_get (\<lambda>n. if n < 2 then Got (Response 429 (Some ''30'') ()) else Got (Response 200 None ()))
     default_max_retries = (Returned (Response 200 None ()), 3, [30, 30])"
  by (simp add: safe_get_def default_max_retries_def safe_get_loop.simps
      py_int_def strip_def is_space_def is_digit_def digit_value_def raises_for_status_def)

text \<open>
  C5 at the failing input. Every request is answered by status 429 with the header
  \<open>Retry-After: Wed, 21 Oct 2015 07:28:00 GMT\<close> (an HTTP date, which the header may
  carry): the first pass of \<open>safe_get\<close> ends with the \<open>ValueError\<close> of \<open>int\<close>, after one
  request and no wait, instead of returning \<open>None\<close>.
\<close>

theorem safe_get_raises_on_http_date:
  "safe_get (\<lambda>n. Got (Response 429 (Some ''Wed, 21 Oct 2015 07:28:00 GMT'') ()))
     default_max_retries = (Raised_ValueError, 1, [])"
  by (simp add: safe_get_def default_max_retries_def safe_get_loop.simps
      py_int_def strip_def is_space_def is_digit_def)

section \<open>Properties of the verified-place sweep\<close>

lemma hardware_rejected:
  "\<not> is_charger_place \<lparr>types = Some [''hardware_store''], name = Some ''Acme Hardware'',
       formatted_address = Some ''1 High St''\<rparr>"
  by (simp add: is_charger_place_def CHARGER_KEYWORDS_def lower_def lower_char_def
      or_default_def)

lemma charger_accepted:
  "is_charger_place \<lparr>types = Some [''establishment''], name = Some ''Acme EV Charger'',
       formatted_address = Some ''1 High St, Charging Yard''\<rparr>"
  by (simp add: is_charger_place_def CHARGER_KEYWORDS_def lower_def lower_char_def
      or_default_def)

lemma accepted_snoc:
  "accepted (trace @ [(pid, added)]) = (if added then accepted trace @ [pid] else accepted trace)"
  by (simp add: accepted_def)

lemma set_accepted: "set (accepted trace) = {pid. (pid, True) \<in> set trace}"
proof (induction trace)
  case Nil
  show ?case by (simp add: accepted_def)
next
  case (Cons call trace)
  obtain q b where call: "call = (q, b)"
    by (cases call)
  from Cons.IH have "set (accepted trace) = {pid. (pid, True) \<in> set trace}" .
  then show ?case
    unfolding call by (cases b) (auto simp: accepted_def)
qed

lemma accepted_subset: "set (accepted trace) \<subseteq> fst ` set trace"
  by (auto simp: accepted_def)

lemma no_refetch_snoc:
  "no_refetch (trace @ [(pid, added)]) \<longleftrightarrow> no_refetch trace \<and> pid \<notin> set (accepted trace)"
proof (induction trace)
  case Nil
  show ?case by (simp add: accepted_def)
next
  case (Cons call trace)
  obtain q b where call: "call = (q, b)"
    by (cases call)
  show ?case
    unfolding call using Cons.IH by (cases b) (auto simp: accepted_def)
qed

lemma no_refetch_split:
  "no_refetch trace \<Longrightarrow> trace = pre @ (pid, True) # post \<Longrightarrow> pid \<notin> fst ` set post"
proof (induction pre arbitrary: trace)
  case Nil
  then show ?case by simp
next
  case (Cons call pre)
  obtain q b where call: "call = (q, b)"
    by (cases call)
  from Cons.prems have "no_refetch (pre @ (pid, True) # post)"
    by (simp add: call)
  then show ?case
    by (rule Cons.IH) simp
qed

lemma sweep_inv_start: "sweep_inv start"
  by (simp add: sweep_inv_def start_def accepted_def)

lemma sweep_inv_rejected:
  assumes "sweep_inv st" and "pid \<notin> seen st"
  shows "sweep_inv (st\<lparr>fetched := fetched st @ [(pid, False)]\<rparr>)"
  using assms by (simp add: sweep_inv_def no_refetch_snoc accepted_snoc)

lemma sweep_inv_accepted:
  assumes "sweep_inv st" and "pid \<notin> seen st"
  shows "sweep_inv (st\<lparr>records := records st @ [(pid, details)],
                       seen := insert pid (seen st),
                       fetched := fetched st @ [(pid, True)]\<rparr>)"
  using assms by (simp add: sweep_inv_def no_refetch_snoc accepted_snoc)

lemma visit_inv:
  assumes "sweep_inv st"
  shows "sweep_inv (visit accepts fetch_place_details r st)"
proof (cases r)
  case None
  with assms show ?thesis by (simp add: visit_def)
next
  case (Some pid)
  show ?thesis
  proof (cases "pid = [] \<or> pid \<in> seen st")
    case True
    with Some assms show ?thesis by (simp add: visit_def)
  next
    case False
    then have new: "pid \<notin> seen st" by simp
    show ?thesis
    proof (cases "fetch_place_details (length (fetched st)) pid")
      case None
      with Some False sweep_inv_rejected [OF assms new] show ?thesis
        by (simp add: visit_def)
    next
      case (Some details)
      with \<open>r = Some pid\<close> False sweep_inv_rejected [OF assms new]
        sweep_inv_accepted [OF assms new, of details]
      show ?thesis
        by (simp add: visit_def)
    qed
  qed
qed

lemma visit_01_inv:
  assumes "sweep_inv st" and "visit_01 fetch_place_details r st = Some st'"
  shows "sweep_inv st'"
proof (cases r)
  case None
  with assms show ?thesis by (simp add: visit_01_def)
next
  case (Some pid)
  show ?thesis
  proof (cases "pid = [] \<or> pid \<in> seen st")
    case True
    with Some assms show ?thesis by (simp add: visit_01_def)
  next
    case False
    then have new: "pid \<notin> seen st" by simp
    from assms(2) Some False obtain details
      where "fetch_place_details (length (fetched st)) pid = Some details"
      by (cases "fetch_place_details (length (fetched st)) pid") (simp_all add: visit_01_def)
    with assms(2) \<open>r = Some pid\<close> False sweep_inv_rejected [OF assms(1) new]
      sweep_inv_accepted [OF assms(1) new, of details]
    show ?thesis
      by (cases "is_charger_place_01 details") (auto simp: visit_01_def)
  qed
qed

lemma fold_visit_inv:
  "sweep_inv st \<Longrightarrow> sweep_inv (fold (visit accepts fetch_place_details) rs st)"
  by (induction rs arbitrary: st) (simp_all add: visit_inv)

lemma sweep_fold_inv:
  "sweep_inv st \<Longrightarrow>
   sweep_inv (fold (\<lambda>results st.
             case results of
               None \<Rightarrow> st
             | Some rs \<Rightarrow> fold (visit accepts fetch_place_details) rs st) nearby st)"
proof (induction nearby arbitrary: st)
  case Nil
  then show ?case by simp
next
  case (Cons results nearby)
  have "sweep_inv (case results of None \<Rightarrow> st
      | Some rs \<Rightarrow> fold (visit accepts fetch_place_details) rs st)"
    using Cons.prems by (cases results) (simp_all add: fold_visit_inv)
  then show ?case
    using Cons.IH by simp
qed

lemma visit_all_01_inv:
  "sweep_inv st \<Longrightarrow> visit_all_01 fetch_place_details rs st = Some st' \<Longrightarrow> sweep_inv st'"
proof (induction rs arbitrary: st)
  case Nil
  then show ?case by simp
next
  case (Cons r rs)
  from Cons.prems(2) obtain mid where mid: "visit_01 fetch_place_details r st = Some mid"
    and rest: "visit_all_01 fetch_place_details rs mid = Some st'"
    by (auto split: option.splits)
  from Cons.prems(1) mid have "sweep_inv mid"
    by (rule visit_01_inv)
  then show ?case
    using rest by (rule Cons.IH)
qed

lemma run_extraction_from_inv:
  "sweep_inv st \<Longrightarrow> run_extraction_from fetch_place_details nearby st = Some st' \<Longrightarrow>
   sweep_inv st'"
proof (induction nearby arbitrary: st)
  case Nil
  then show ?case by simp
next
  case (Cons results nearby)
  from Cons.prems(2) obtain rs mid where "results = Some rs"
    and mid: "visit_all_01 fetch_place_details rs st = Some mid"
    and rest: "run_extraction_from fetch_place_details nearby mid = Some st'"
    by (auto split: option.splits)
  from Cons.prems(1) mid have "sweep_inv mid"
    by (rule visit_all_01_inv)
  then show ?case
    using rest by (rule Cons.IH)
qed

lemma sweep_inv_final:
  assumes "st = fetch_central_london_verified fetch_place_details nearby \<or>
     run_extraction fetch_place_details nearby = Some st"
  shows "sweep_inv st"
proof -
  from assms consider
    (script) "st = fetch_central_london_verified fetch_place_details nearby"
    | (cloud) "run_extraction fetch_place_details nearby = Some st"
    by blast
  then show ?thesis
  proof cases
    case script
    then show ?thesis
      unfolding fetch_central_london_verified_def
      using sweep_fold_inv [OF sweep_inv_start] by simp
  next
    case cloud
    then show ?thesis
      unfolding run_extraction_def
      using run_extraction_from_inv [OF sweep_inv_start] by simp
  qed
qed

text \<open>
  C6 (as the code has it). In both verified-place variants an identifier enters \<open>seen\<close>
  only when its details were fetched and accepted by \<open>is_charger_place\<close>. From then on no
  later result with that identifier, at the same or at a later grid point, leads to
  another details call; the identifiers of the records are exactly the set \<open>seen\<close>, and no
  identifier is recorded twice.
\<close>

theorem accepted_never_refetched:
  "st = fetch_central_london_verified fetch_place_details nearby \<or>
   run_extraction fetch_place_details nearby = Some st \<longrightarrow>
     (\<forall>pre post pid. fetched st = pre @ (pid, True) # post \<longrightarrow> pid \<notin> fst ` set post) \<and>
     seen st = {pid. (pid, True) \<in> set (fetched st)} \<and>
     set (map fst (records st)) = seen st \<and>
     distinct (map fst (records st))"
proof (intro impI conjI allI)
  fix pre post pid
  assume run: "st = fetch_central_london_verified fetch_place_details nearby \<or>
      run_extraction fetch_place_details nearby = Some st"
    and split: "fetched st = pre @ (pid, True) # post"
  from sweep_inv_final [OF run] have "no_refetch (fetched st)"
    by (simp add: sweep_inv_def)
  then show "pid \<notin> fst ` set post"
    using split by (rule no_refetch_split)
next
  assume run: "st = fetch_central_london_verified fetch_place_details nearby \<or>
      run_extraction fetch_place_details nearby = Some st"
  note inv = sweep_inv_final [OF run]
  from inv have s: "seen st = set (accepted (fetched st))"
    by (simp add: sweep_inv_def)
  then show "seen st = {pid. (pid, True) \<in> set (fetched st)}"
    by (simp add: set_accepted)
  from inv s show "set (map fst (records st)) = seen st"
    by (simp add: sweep_inv_def)
  from inv show "distinct (map fst (records st))"
    by (simp add: sweep_inv_def)
qed

theorem accepted_never_refetched_witness:
  "fetched (fetch_central_london_verified
     (\<lambda>n pid. if pid = ''ChIJ-EV''
        then Some \<lparr>types = Some [''establishment''], name = Some ''Acme EV Charger'',
                   formatted_address = Some ''1 High St, Charging Yard''\<rparr>
        else Some \<lparr>types = Some [''hardware_store''], name = Some ''Acme Hardware'',
                   formatted_address = Some ''1 High St''\<rparr>)
     [Some [Some ''ChIJ-EV'', Some ''ChIJ-HW''], Some [Some ''ChIJ-EV'', Some ''ChIJ-HW'']]) =
     [(''ChIJ-EV'', True), (''ChIJ-HW'', False), (''ChIJ-HW'', False)] \<and>
   ''ChIJ-EV'' \<notin> fst ` set [(''ChIJ-HW'', False), (''ChIJ-HW'', False)]"
proof -
  let ?details = "\<lambda>(n :: nat) pid. if pid = ''ChIJ-EV''
        then Some \<lparr>types = Some [''establishment''], name = Some ''Acme EV Charger'',
                   formatted_address = Some ''1 High St, Charging Yard''\<rparr>
        else Some \<lparr>types = Some [''hardware_store''], name = Some ''Acme Hardware'',
                   formatted_address = Some ''1 High St''\<rparr>"
  let ?nearby = "[Some [Some ''ChIJ-EV'', Some ''ChIJ-HW''],
                  Some [Some ''ChIJ-EV'', Some ''ChIJ-HW'']]"
  let ?st = "fetch_central_london_verified ?details ?nearby"
  have trace: "fetched ?st = [(''ChIJ-EV'', True), (''ChIJ-HW'', False), (''ChIJ-HW'', False)]"
    by (simp add: fetch_central_london_verified_def start_def visit_def
        hardware_rejected charger_accepted)
  then have split: "fetched ?st = [] @ (''ChIJ-EV'', True) #
      [(''ChIJ-HW'', False), (''ChIJ-HW'', False)]"
    by simp
  have "''ChIJ-EV'' \<notin> fst ` set [(''ChIJ-HW'', False), (''ChIJ-HW'', False)]"
    using accepted_never_refetched [of ?st ?details ?nearby] split by blast
  with trace show ?thesis
    by (rule conjI)
qed

text \<open>
  C6 as stated fails: a place that \<open>is_charger_place\<close> rejects is never added to \<open>seen\<close>,
  so its details are fetched again when a later grid point returns it.
\<close>

theorem rejected_place_refetched_counterexample:
  "fetched (fetch_central_london_verified
     (\<lambda>n pid. Some \<lparr>types = Some [''hardware_store''], name = Some ''Acme Hardware'',
                     formatted_address = Some ''1 High St''\<rparr>)
     [Some [Some ''ChIJ-HW''], Some [Some ''ChIJ-HW'']]) =
     [(''ChIJ-HW'', False), (''ChIJ-HW'', False)]"
  by (simp add: fetch_central_london_verified_def start_def visit_def hardware_rejected)

section \<open>Properties of the secondary-catalog lookup\<close>

lemma digit_char_props:
  assumes "d < 10"
  shows "is_digit (digit_char d)" and "digit_value (digit_char d) = d"
proof -
  from assms have "d \<in> {0, 1, 2, 3, 4, 5, 6, 7, 8, 9}"
    by auto
  then show "is_digit (digit_char d)" and "digit_value (digit_char d) = d"
    by (auto simp: digit_char_def is_digit_def digit_value_def)
qed

lemma digits_all_digit: "\<forall>c \<in> set (digits n). is_digit c"
proof (induction n rule: digits.induct)
  case (1 n)
  show ?case
  proof (cases "n < 10")
    case True
    then show ?thesis
      by (subst digits.simps) (simp add: digit_char_props)
  next
    case False
    with 1 show ?thesis
      by (subst digits.simps) (simp add: digit_char_props)
  qed
qed

lemma digits_nonempty: "digits n \<noteq> []"
  by (subst digits.simps) simp

lemma nat_of_digits_append:
  "nat_of_digits acc (xs @ ys) =
     (case nat_of_digits acc xs of None \<Rightarrow> None | Some a \<Rightarrow> nat_of_digits a ys)"
  by (induction xs arbitrary: acc) simp_all

lemma nat_of_digits_digits: "nat_of_digits 0 (digits n) = Some n"
proof (induction n rule: digits.induct)
  case (1 n)
  show ?case
  proof (cases "n < 10")
    case True
    then show ?thesis
      by (subst digits.simps) (simp add: digit_char_props)
  next
    case False
    with 1 have "nat_of_digits 0 (digits (n div 10)) = Some (n div 10)"
      by simp
    with False show ?thesis
      by (subst digits.simps) (simp add: nat_of_digits_append digit_char_props)
  qed
qed

lemma is_digit_not_special:
  "is_digit c \<Longrightarrow>
     c \<noteq> CHR ''.'' \<and> c \<noteq> CHR '' '' \<and> c \<noteq> CHR '';'' \<and> c \<noteq> CHR ''-'' \<and> c \<noteq> CHR ''+'' \<and>
     \<not> is_space c"
  by (auto simp: is_digit_def is_space_def)

lemma unsigned_float_digits:
  assumes "b < 10"
  shows "unsigned_float (digits a @ ''.'' @ digits b) = Some (real a + real b / 10)"
proof -
  have no_point: "\<forall>c \<in> set (digits a). c \<noteq> CHR ''.''"
    using digits_all_digit is_digit_not_special by blast
  have whole: "takeWhile (\<lambda>c. c \<noteq> CHR ''.'') (digits a @ ''.'' @ digits b) = digits a"
    using no_point by (simp add: takeWhile_append2)
  have rest: "dropWhile (\<lambda>c. c \<noteq> CHR ''.'') (digits a @ ''.'' @ digits b) = ''.'' @ digits b"
    using no_point by (simp add: dropWhile_append2)
  have single: "digits b = [digit_char b]"
    using assms by (subst digits.simps) simp
  show ?thesis
    unfolding unsigned_float_def whole rest
    using assms digits_nonempty [of a]
    by (simp add: nat_of_digits_digits single digit_char_props)
qed

lemma dropWhile_none:
  "\<forall>c \<in> set xs. \<not> P c \<Longrightarrow> dropWhile P xs = xs"
  by (cases xs) simp_all

lemma strip_no_space:
  assumes "\<forall>c \<in> set s. \<not> is_space c"
  shows "strip s = s"
proof -
  have "dropWhile is_space s = s"
    using assms by (rule dropWhile_none)
  moreover have "dropWhile is_space (rev s) = rev s"
    using assms by (intro dropWhile_none) simp
  ultimately show ?thesis
    by (simp add: strip_def)
qed

lemma format_1f_chars:
  "\<forall>c \<in> set (format_1f p). c \<noteq> CHR '' '' \<and> c \<noteq> CHR '';'' \<and> \<not> is_space c"
proof
  fix c
  assume "c \<in> set (format_1f p)"
  then have "c = CHR ''-'' \<or> c = CHR ''.'' \<or> is_digit c"
    using digits_all_digit by (auto simp: format_1f_def split: if_splits)
  then show "c \<noteq> CHR '' '' \<and> c \<noteq> CHR '';'' \<and> \<not> is_space c"
    using is_digit_not_special [of c] by (auto simp: is_space_def)
qed

lemma py_float_format_1f: "py_float (format_1f p) = Some (round_1f p)"
proof -
  let ?body = "digits (tenths p div 10) @ ''.'' @ digits (tenths p mod 10)"
  have parsed: "unsigned_float ?body = Some (real (tenths p) / 10)"
  proof -
    have "unsigned_float ?body =
        Some (real (tenths p div 10) + real (tenths p mod 10) / 10)"
      by (rule unsigned_float_digits) simp
    moreover have "real (tenths p div 10) + real (tenths p mod 10) / 10 = real (tenths p) / 10"
    proof -
      have "tenths p = 10 * (tenths p div 10) + tenths p mod 10"
        by simp
      then have "real (tenths p) = 10 * real (tenths p div 10) + real (tenths p mod 10)"
        by (metis of_nat_add of_nat_mult of_nat_numeral)
      then show ?thesis
        by simp
    qed
    ultimately show ?thesis
      by simp
  qed
  obtain c cs where body: "?body = c # cs" and first: "is_digit c"
    using digits_nonempty [of "tenths p div 10"] digits_all_digit [of "tenths p div 10"]
    by (cases "digits (tenths p div 10)") auto
  have stripped: "strip (format_1f p) = format_1f p"
    using format_1f_chars by (simp add: strip_no_space)
  show ?thesis
  proof (cases "p < 0")
    case True
    then have "format_1f p = CHR ''-'' # ?body"
      by (simp add: format_1f_def)
    with stripped parsed True show ?thesis
      by (simp add: py_float_def round_1f_def)
  next
    case False
    then have "format_1f p = c # cs"
      using body by (simp add: format_1f_def)
    moreover from first have "c \<noteq> CHR ''-''" and "c \<noteq> CHR ''+''"
      using is_digit_not_special by blast+
    ultimately show ?thesis
      using stripped parsed False body by (simp add: py_float_def round_1f_def)
  qed
qed

lemma remove_kW_suffix:
  "CHR '' '' \<notin> set s \<Longrightarrow> remove_kW (s @ '' kW'') = s"
  by (induction s) auto

lemma contains_suffix: "sub \<noteq> [] \<Longrightarrow> contains (s @ sub) sub"
proof (induction s)
  case Nil
  then show ?case by (cases sub) simp_all
next
  case (Cons c s)
  then show ?case by simp
qed

lemma split_from_last:
  "CHR '';'' \<notin> set t \<Longrightarrow> split_from piece t = [piece @ t]"
  by (induction piece t rule: split_from.induct) auto

lemma split_from_piece:
  "CHR '';'' \<notin> set t \<Longrightarrow> split_from piece (t @ ''; '' @ rest) = (piece @ t) # split_from [] rest"
proof (induction t arbitrary: piece)
  case Nil
  show ?case by simp
next
  case (Cons c t)
  then have c: "c \<noteq> CHR '';''" and t: "CHR '';'' \<notin> set t"
    by auto
  obtain d ds where tail: "t @ ''; '' @ rest = d # ds"
    by (cases "t @ ''; '' @ rest") auto
  have "split_from piece ((c # t) @ ''; '' @ rest) = split_from piece (c # d # ds)"
    using tail by simp
  also have "\<dots> = split_from (piece @ [c]) (d # ds)"
    using c by simp
  also have "\<dots> = split_from (piece @ [c]) (t @ ''; '' @ rest)"
    using tail by simp
  also have "\<dots> = ((piece @ [c]) @ t) # split_from [] rest"
    using t by (rule Cons.IH)
  finally show ?case by simp
qed

lemma split_join:
  "ts \<noteq> [] \<Longrightarrow> \<forall>t \<in> set ts. CHR '';'' \<notin> set t \<Longrightarrow> split (join ts) = ts"
proof (induction ts rule: join.induct)
  case 1
  then show ?case by simp
next
  case (2 x)
  then show ?case by (simp add: split_def split_from_last)
next
  case (3 x y ys)
  then have "split (join (y # ys)) = y # ys"
    by simp
  moreover have "split (join (x # y # ys)) = x # split (join (y # ys))"
    using "3.prems" split_from_piece [of x "[]" "join (y # ys)"] by (simp add: split_def)
  ultimately show ?case by simp
qed

lemma power_text_no_semicolon: "CHR '';'' \<notin> set (power_text conn)"
  using format_1f_chars by (auto simp: power_text_def split: option.splits)

lemma power_text_unknown:
  "PowerKW conn = None \<or> PowerKW conn = Some 0 \<Longrightarrow> power_text conn = ''Power Unknown''"
  by (auto simp: power_text_def)

lemma unknown_has_no_kW: "\<not> contains ''Power Unknown'' ''kW''"
  by simp

lemma convert_loop_power_text:
  "convert_loop out (map power_text conns) =
     Inr (out @ map round_1f (filter (\<lambda>p. p \<noteq> 0) (not_none (map PowerKW conns))))"
proof (induction conns arbitrary: out)
  case Nil
  show ?case by simp
next
  case (Cons conn conns)
  show ?case
  proof (cases "PowerKW conn = None \<or> PowerKW conn = Some 0")
    case True
    then have "power_text conn = ''Power Unknown''"
      by (rule power_text_unknown)
    then have "convert_loop out (map power_text (conn # conns)) =
        convert_loop out (map power_text conns)"
      using unknown_has_no_kW by simp
    with True Cons.IH [of out] show ?thesis
      by auto
  next
    case False
    then obtain p where p: "PowerKW conn = Some p" "p \<noteq> 0"
      by auto
    then have rendered: "power_text conn = format_1f p @ '' kW''"
      by (simp add: power_text_def)
    have has: "contains (format_1f p @ '' kW'') ''kW''"
      using contains_suffix [of "''kW''" "format_1f p @ '' ''"] by simp
    have "CHR '' '' \<notin> set (format_1f p)"
      using format_1f_chars by blast
    then have body: "remove_kW (format_1f p @ '' kW'') = format_1f p"
      by (rule remove_kW_suffix)
    have "convert_loop out (map power_text (conn # conns)) =
        convert_loop (out @ [round_1f p]) (map power_text conns)"
      using has by (simp add: rendered body py_float_format_1f del: contains.simps)
    with p Cons.IH [of "out @ [round_1f p]"] show ?thesis
      by simp
  qed
qed

lemma fetch_ocm_details_matched:
  assumes "OCM_API_KEY = Some key" and "key \<noteq> []"
    and "reply = Pois (Some conns # others)" and "conns \<noteq> []"
    and "\<forall>c \<in> set conns. conn_type c \<noteq> None"
  shows "fetch_ocm_details OCM_API_KEY reply =
     (join (map (\<lambda>conn. the (conn_type conn)) conns), join (map power_text conns))"
proof -
  from assms(5) have "\<not> list_ex (\<lambda>conn. conn_type conn = None) conns"
    by (simp add: list_ex_iff)
  with assms(1-4) show ?thesis
    by (simp add: fetch_ocm_details_def)
qed

text \<open>
  C10. In the Option 01 reconciler, for every non-empty connection list of the matched POI
  (with a key configured and titles that can be joined), the power text handed on is the
  list of the connections' renderings joined by \<open>"; "\<close>; a connection whose \<open>PowerKW\<close> is
  missing, \<open>null\<close> or 0 is rendered \<open>"Power Unknown"\<close>, any other as its power with one
  decimal and \<open>" kW"\<close>; and the known-power list \<open>convert_power\<close> reads back from that text
  holds exactly the non-zero powers (rounded to one decimal), in order: the connections
  rendered \<open>"Power Unknown"\<close> are not in it.
\<close>

theorem falsy_power_excluded:
  "OCM_API_KEY = Some key \<and> key \<noteq> [] \<and> reply = Pois (Some conns # others) \<and> conns \<noteq> [] \<and>
   (\<forall>c \<in> set conns. conn_type c \<noteq> None) \<longrightarrow>
     snd (fetch_ocm_details OCM_API_KEY reply) = join (map power_text conns) \<and>
     split (snd (fetch_ocm_details OCM_API_KEY reply)) = map power_text conns \<and>
     (\<forall>c \<in> set conns. PowerKW c = None \<or> PowerKW c = Some 0 \<longrightarrow>
        power_text c = ''Power Unknown'') \<and>
     (\<forall>c \<in> set conns. \<forall>p. PowerKW c = Some p \<and> p \<noteq> 0 \<longrightarrow>
        power_text c = format_1f p @ '' kW'') \<and>
     convert_power (Some (split (snd (fetch_ocm_details OCM_API_KEY reply)))) =
       Inr (map round_1f (filter (\<lambda>p. p \<noteq> 0) (not_none (map PowerKW conns))))"
proof (intro impI)
  assume pre: "OCM_API_KEY = Some key \<and> key \<noteq> [] \<and> reply = Pois (Some conns # others) \<and>
      conns \<noteq> [] \<and> (\<forall>c \<in> set conns. conn_type c \<noteq> None)"
  then have answer: "snd (fetch_ocm_details OCM_API_KEY reply) = join (map power_text conns)"
    using fetch_ocm_details_matched [of OCM_API_KEY key reply conns others] by simp
  from pre have "map power_text conns \<noteq> []"
    by simp
  then have pieces: "split (join (map power_text conns)) = map power_text conns"
    by (rule split_join) (simp add: power_text_no_semicolon)
  have unknown: "\<forall>c \<in> set conns. PowerKW c = None \<or> PowerKW c = Some 0 \<longrightarrow>
      power_text c = ''Power Unknown''"
    using power_text_unknown by blast
  have known: "\<forall>c \<in> set conns. \<forall>p. PowerKW c = Some p \<and> p \<noteq> 0 \<longrightarrow>
      power_text c = format_1f p @ '' kW''"
    by (simp add: power_text_def)
  have read: "convert_power (Some (map power_text conns)) =
      Inr (map round_1f (filter (\<lambda>p. p \<noteq> 0) (not_none (map PowerKW conns))))"
    using convert_loop_power_text [of "[]" conns] by (simp add: convert_power_def)
  show "snd (fetch_ocm_details OCM_API_KEY reply) = join (map power_text conns) \<and>
     split (snd (fetch_ocm_details OCM_API_KEY reply)) = map power_text conns \<and>
     (\<forall>c \<in> set conns. PowerKW c = None \<or> PowerKW c = Some 0 \<longrightarrow>
        power_text c = ''Power Unknown'') \<and>
     (\<forall>c \<in> set conns. \<forall>p. PowerKW c = Some p \<and> p \<noteq> 0 \<longrightarrow>
        power_text c = format_1f p @ '' kW'') \<and>
     convert_power (Some (split (snd (fetch_ocm_details OCM_API_KEY reply)))) =
       Inr (map round_1f (filter (\<lambda>p. p \<noteq> 0) (not_none (map PowerKW conns))))"
    unfolding answer pieces
    using unknown known read by (intro conjI) simp_all
qed

theorem falsy_power_excluded_witness:
  "fetch_ocm_details (Some ''key'')
     (Pois [Some [\<lparr>PowerKW = Some 50, ConnectionTypeID = Some 33, CurrentTypeID = Some 30,
                    ConnectionType = Present (Present ''CCS (Type 2)'')\<rparr>,
                  \<lparr>PowerKW = Some 0, ConnectionTypeID = Some 25, CurrentTypeID = None,
                    ConnectionType = Present (Present ''Type 2 (Socket Only)'')\<rparr>,
                  \<lparr>PowerKW = None, ConnectionTypeID = None, CurrentTypeID = None,
                    ConnectionType = Missing\<rparr>]]) =
     (''CCS (Type 2); Type 2 (Socket Only); Unknown'',
      ''50.0 kW; Power Unknown; Power Unknown'') \<and>
   convert_power (Some (split ''50.0 kW; Power Unknown; Power Unknown'')) = Inr [50]"
proof -
  let ?conns = "[\<lparr>PowerKW = Some 50, ConnectionTypeID = Some 33, CurrentTypeID = Some 30,
                    ConnectionType = Present (Present ''CCS (Type 2)'')\<rparr>,
                  \<lparr>PowerKW = Some 0, ConnectionTypeID = Some 25, CurrentTypeID = None,
                    ConnectionType = Present (Present ''Type 2 (Socket Only)'')\<rparr>,
                  \<lparr>PowerKW = None, ConnectionTypeID = None, CurrentTypeID = None,
                    ConnectionType = Missing\<rparr>]"
  have fifty: "format_1f 50 = ''50.0''"
    by (simp add: format_1f_def tenths_def round_half_even_def digits.simps digit_char_def)
  have answer: "fetch_ocm_details (Some ''key'') (Pois [Some ?conns]) =
      (''CCS (Type 2); Type 2 (Socket Only); Unknown'',
       ''50.0 kW; Power Unknown; Power Unknown'')"
    by (simp add: fetch_ocm_details_def conn_type_def power_text_def fifty)
  have titles: "\<forall>c \<in> set ?conns. conn_type c \<noteq> None"
    by (simp add: conn_type_def)
  have rounded: "round_1f 50 = 50"
    by (simp add: round_1f_def tenths_def round_half_even_def)
  have pre: "Some ''key'' = Some ''key'' \<and> ''key'' \<noteq> [] \<and>
      Pois [Some ?conns] = Pois (Some ?conns # []) \<and> ?conns \<noteq> [] \<and>
      (\<forall>c \<in> set ?conns. conn_type c \<noteq> None)"
    using titles by simp
  note all = falsy_power_excluded
    [of "Some ''key''" "''key''" "Pois [Some ?conns]" ?conns "[]", THEN mp, OF pre]
  note read = all [THEN conjunct2, THEN conjunct2, THEN conjunct2, THEN conjunct2]
  have known: "map round_1f (filter (\<lambda>p. p \<noteq> 0) (not_none (map PowerKW ?conns))) = [50]"
    by (simp add: rounded)
  have "convert_power (Some (split ''50.0 kW; Power Unknown; Power Unknown'')) = Inr [50]"
    using read unfolding answer known by simp
  with answer show ?thesis
    by (rule conjI)
qed

end
